theory Spec2Isabelle
  imports Main
begin

chapter \<open>The program\<close>

text \<open>
  A shallow embedding of \<^verbatim>\<open>fill_in_the_blank.js\<close>, the page of a collaborative
  fill-in-the-blanks exercise: a grid of 30 lines with 3 blanks each, kept in step with a
  realtime store, with words harvested from random encyclopedia summaries under each
  line. Functions keep their names in the source. What the source takes from its
  environment is a parameter of the model: the responses of the network, the random
  numbers, the clock, the answer to a dialog and the outcome of an awaited update.
\<close>

section \<open>Configuration\<close>

text \<open>
  The constants of \<^verbatim>\<open>fill_in_the_blank.js\<close> (lines 10-12 and 39-42).
  \<open>TARGET_POOL_SIZE\<close> is \<open>Math.min(600, Math.ceil(300 * 1.6))\<close>, that is 480.
\<close>

definition LINES :: nat where
  "LINES = 30"

definition BLANKS_PER_LINE :: nat where
  "BLANKS_PER_LINE = 3"

definition NOUNS_PER_LINE :: nat where
  "NOUNS_PER_LINE = 10"

definition TOTAL_NOUNS_NEEDED :: nat where
  "TOTAL_NOUNS_NEEDED = LINES * NOUNS_PER_LINE"

definition TARGET_POOL_SIZE :: int where
  "TARGET_POOL_SIZE = min 600 (int ((TOTAL_NOUNS_NEEDED * 16 + 9) div 10))"

definition MAX_REQUESTS :: nat where
  "MAX_REQUESTS = 60"

definition BATCH_SIZE :: nat where
  "BATCH_SIZE = 5"

section \<open>Strings of the host language\<close>

text \<open>
  A string is a list of code units; the model covers the code units U+0000 to U+00FF,
  one \<^typ>\<open>char\<close> each. In that range the regular expression class \<open>\s\<close> and
  \<open>trim\<close> know seven white space characters: tab, line feed, vertical tab, form feed,
  carriage return, space and the no-break space U+00A0.
\<close>

definition isWhiteSpace :: "char \<Rightarrow> bool" where
  "isWhiteSpace c = ((of_char c :: nat) \<in> {9, 10, 11, 12, 13, 32, 160})"

definition isLowerAZ :: "char \<Rightarrow> bool" where
  "isLowerAZ c = (97 \<le> (of_char c :: nat) \<and> (of_char c :: nat) \<le> 122)"

text \<open>
  \<open>toLowerCase\<close>: A-Z and the Latin-1 capitals U+00C0 to U+00DE (the multiplication sign
  U+00D7 apart) move up by 32; every other code unit of the range stays.
\<close>

definition toLowerChar :: "char \<Rightarrow> char" where
  "toLowerChar c =
     (let n = (of_char c :: nat)
      in if (65 \<le> n \<and> n \<le> 90) \<or> (192 \<le> n \<and> n \<le> 222 \<and> n \<noteq> 215)
         then char_of (n + 32) else c)"

definition toLowerCase :: "string \<Rightarrow> string" where
  "toLowerCase s = map toLowerChar s"

text \<open>\<open>s.replace(/[^a-z\-\s]/g, ' ')\<close>\<close>

definition replaceNonWord :: "string \<Rightarrow> string" where
  "replaceNonWord s =
     map (\<lambda>c. if isLowerAZ c \<or> c = CHR ''-'' \<or> isWhiteSpace c then c else CHR '' '') s"

text \<open>
  \<open>s.split(/\s+/)\<close>: the pieces between the maximal runs of white space. A run at the
  start or at the end of the string leaves an empty piece there, and the empty string
  splits into one empty piece.
\<close>

fun splitWs :: "string \<Rightarrow> string list" where
  "splitWs [] = [[]]"
| "splitWs (c # cs) =
     (if isWhiteSpace c
      then (case cs of
              [] \<Rightarrow> [] # splitWs cs
            | d # ds \<Rightarrow> if isWhiteSpace d then splitWs cs else [] # splitWs cs)
      else (case splitWs cs of
              [] \<Rightarrow> [[c]]
            | t # ts \<Rightarrow> (c # t) # ts))"

declare splitWs.simps(2) [simp del]

definition startsWith :: "string \<Rightarrow> string \<Rightarrow> bool" where
  "startsWith p w = (length p \<le> length w \<and> take (length p) w = p)"

definition endsWith :: "string \<Rightarrow> string \<Rightarrow> bool" where
  "endsWith p w = (length p \<le> length w \<and> drop (length w - length p) w = p)"

fun includesStr :: "string \<Rightarrow> string \<Rightarrow> bool" where
  "includesStr p [] = (p = [])"
| "includesStr p (c # cs) = (startsWith p (c # cs) \<or> includesStr p cs)"

text \<open>\<open>parts.join(sep)\<close>\<close>

fun join :: "string \<Rightarrow> string list \<Rightarrow> string" where
  "join sep [] = []"
| "join sep [p] = p"
| "join sep (p # q # ps) = p @ sep @ join sep (q # ps)"

section \<open>Insertion-ordered sets and the stable sort\<close>

text \<open>
  A \<open>Set\<close> iterates in insertion order, and adding a member again leaves its position:
  the model is the list of the members in insertion order.
\<close>

definition Set_add :: "'a list \<Rightarrow> 'a \<Rightarrow> 'a list" where
  "Set_add s x = (if x \<in> set s then s else s @ [x])"

definition Set_from :: "'a list \<Rightarrow> 'a list" where
  "Set_from xs = fold (\<lambda>x s. Set_add s x) xs []"

text \<open>
  \<open>Array.prototype.sort(cmp)\<close> is a stable sort: \<open>a\<close> stays before \<open>b\<close> unless
  \<open>cmp(a, b) > 0\<close>. The model is the stable insertion sort under the comparator.
\<close>

fun insertBy :: "('a \<Rightarrow> 'a \<Rightarrow> int) \<Rightarrow> 'a \<Rightarrow> 'a list \<Rightarrow> 'a list" where
  "insertBy cmp x [] = [x]"
| "insertBy cmp x (y # ys) = (if cmp x y \<le> 0 then x # y # ys else y # insertBy cmp x ys)"

definition Array_sort :: "('a \<Rightarrow> 'a \<Rightarrow> int) \<Rightarrow> 'a list \<Rightarrow> 'a list" where
  "Array_sort cmp xs = foldr (insertBy cmp) xs []"

section \<open>Candidate extraction\<close>

text \<open>The stop-word set of lines 26-36, in the order of the source.\<close>

definition STOPWORDS :: "string list" where
  "STOPWORDS =
    [''the'', ''a'', ''an'', ''and'', ''or'', ''but'', ''if'', ''then'', ''else'', ''when'',
     ''while'', ''for'', ''to'', ''of'', ''in'', ''on'', ''at'', ''by'',
     ''with'', ''from'', ''as'', ''that'', ''this'', ''these'', ''those'', ''it'', ''its'',
     ''is'', ''are'', ''was'', ''were'', ''be'', ''been'', ''being'',
     ''has'', ''have'', ''had'', ''do'', ''does'', ''did'', ''can'', ''could'', ''may'',
     ''might'', ''must'', ''shall'', ''should'', ''will'', ''would'',
     ''i'', ''you'', ''he'', ''she'', ''they'', ''we'', ''me'', ''him'', ''her'', ''them'',
     ''us'', ''my'', ''your'', ''his'', ''their'', ''our'', ''mine'', ''yours'', ''hers'',
     ''theirs'', ''ours'',
     ''also'', ''such'', ''other'', ''more'', ''most'', ''some'', ''any'', ''each'', ''many'',
     ''few'', ''several'', ''which'', ''who'', ''whom'', ''whose'', ''what'', ''where'',
     ''why'', ''how'',
     ''than'', ''into'', ''over'', ''under'', ''about'', ''after'', ''before'', ''between'',
     ''during'', ''without'', ''within'', ''per'', ''via'', ''vs'', ''etc'',
     ''january'', ''february'', ''march'', ''april'', ''may'', ''june'', ''july'', ''august'',
     ''september'', ''october'', ''november'', ''december'',
     ''monday'', ''tuesday'', ''wednesday'', ''thursday'', ''friday'', ''saturday'', ''sunday'',
     ''km'', ''mi'', ''ft'', ''m'', ''cm'', ''mm'', ''km2'', ''m2'', ''pm'', ''am'']"

text \<open>The tokens of the text before the filters (lines 146-149).\<close>

definition tokens :: "string \<Rightarrow> string list" where
  "tokens text = splitWs (replaceNonWord (toLowerCase text))"

text \<open>
  One token passes the filters of lines 150-153 and the gerund filter of line 156; the
  filters look at one token at a time.
\<close>

definition keepWord :: "string \<Rightarrow> bool" where
  "keepWord w =
     (3 \<le> length w \<and> length w \<le> 24
      \<and> w \<notin> set STOPWORDS
      \<and> \<not> (startsWith ''-'' w \<or> endsWith ''-'' w)
      \<and> \<not> includesStr ''--'' w)"

definition keepCandidate :: "string \<Rightarrow> bool" where
  "keepCandidate w = (\<not> endsWith ''ing'' w \<or> endsWith ''thing'' w)"

definition words_of :: "string \<Rightarrow> string list" where
  "words_of text = filter keepWord (tokens text)"

definition candidates :: "string \<Rightarrow> string list" where
  "candidates text = filter keepCandidate (words_of text)"

text \<open>
  The frequency map of lines 157-158: \<open>freq.set(w, (freq.get(w) || 0) + 1)\<close> for every
  candidate in order, and the read \<open>freq.get(w) || 0\<close> of the comparator.
\<close>

definition freq_get :: "(string \<rightharpoonup> nat) \<Rightarrow> string \<Rightarrow> nat" where
  "freq_get freq w = (case freq w of None \<Rightarrow> 0 | Some n \<Rightarrow> n)"

definition freq_map :: "string list \<Rightarrow> (string \<rightharpoonup> nat)" where
  "freq_map ws = fold (\<lambda>w freq. freq(w \<mapsto> freq_get freq w + 1)) ws Map.empty"

definition byFrequency :: "(string \<rightharpoonup> nat) \<Rightarrow> string \<Rightarrow> string \<Rightarrow> int" where
  "byFrequency freq a b = int (freq_get freq b) - int (freq_get freq a)"

definition extractCandidateNounsFromText :: "string \<Rightarrow> string list" where
  "extractCandidateNounsFromText text =
     (if text = [] then []
      else Array_sort (byFrequency (freq_map (candidates text))) (Set_from (candidates text)))"


section \<open>Building the pool\<close>

text \<open>
  One request to the summary endpoint ends in a transport failure or in a response with
  its \<open>ok\<close> flag, its status and its body; the body is malformed or parses to a value,
  \<open>null\<close> or an object whose \<open>extract\<close> may be missing. The extract is a string.
\<close>

datatype summary = Summary (extract_of: "string option")

datatype body = Malformed | Parsed "summary option"

datatype http_response = NetworkFailure | Response bool nat body

datatype fetch_error = FetchFailed | WikipediaError nat | BodyError

text \<open>Lines 137-142: the promise rejects (\<open>Inl\<close>) or resolves with the parsed body.\<close>

fun fetchWikipediaRandomSummary :: "http_response \<Rightarrow> fetch_error + summary option" where
  "fetchWikipediaRandomSummary NetworkFailure = Inl FetchFailed"
| "fetchWikipediaRandomSummary (Response ok status b) =
     (if \<not> ok then Inl (WikipediaError status)
      else (case b of Malformed \<Rightarrow> Inl BodyError | Parsed r \<Rightarrow> Inr r))"

text \<open>One task of line 168: \<open>fetchWikipediaRandomSummary().catch(() => null)\<close>.\<close>

definition fetchTask :: "http_response \<Rightarrow> summary option" where
  "fetchTask resp = (case fetchWikipediaRandomSummary resp of Inl e \<Rightarrow> None | Inr r \<Rightarrow> r)"

text \<open>The inner loop of lines 175-178 over the words of one extract.\<close>

fun addWords :: "int \<Rightarrow> string list \<Rightarrow> string list \<Rightarrow> string list" where
  "addWords targetSize pool [] = pool"
| "addWords targetSize pool (w # ws) =
     (let pool' = Set_add pool w
      in if targetSize \<le> int (length pool') then pool' else addWords targetSize pool' ws)"

text \<open>
  The loop of lines 172-180 over the results of one batch: a result that is \<open>null\<close> or
  has no extract, or an empty one, is passed over.
\<close>

fun absorb :: "int \<Rightarrow> string list \<Rightarrow> summary option list \<Rightarrow> string list" where
  "absorb targetSize pool [] = pool"
| "absorb targetSize pool (r # rs) =
     (case r of
        None \<Rightarrow> absorb targetSize pool rs
      | Some (Summary None) \<Rightarrow> absorb targetSize pool rs
      | Some (Summary (Some text)) \<Rightarrow>
          if text = [] then absorb targetSize pool rs
          else (let pool' = addWords targetSize pool (extractCandidateNounsFromText text)
                in if targetSize \<le> int (length pool') then pool'
                   else absorb targetSize pool' rs))"

text \<open>
  The state of the build: the pool in insertion order, the counter \<open>requestsMade\<close>, and
  the number of requests sent so far. The network is the response that the k-th request
  sent will get; the requests of a batch are awaited together, in the order of the tasks.
  Every request is taken to settle: one that never does would keep its batch waiting.
\<close>

record build_state =
  pool :: "string list"
  requestsMade :: nat
  attempts :: nat

definition moreRounds :: "int \<Rightarrow> build_state \<Rightarrow> bool" where
  "moreRounds targetSize s =
     (int (length (pool s)) < targetSize \<and> requestsMade s < MAX_REQUESTS)"

text \<open>One round: the body of the while loop, lines 167-180.\<close>

definition buildRound :: "(nat \<Rightarrow> http_response) \<Rightarrow> int \<Rightarrow> build_state \<Rightarrow> build_state" where
  "buildRound net targetSize s =
     (let batch = min BATCH_SIZE (MAX_REQUESTS - requestsMade s);
          tasks = map (\<lambda>k. fetchTask (net k)) [attempts s ..< attempts s + batch];
          results = tasks
      in \<lparr>pool = absorb targetSize (pool s) results,
          requestsMade = requestsMade s + batch,
          attempts = attempts s + length tasks\<rparr>)"

function buildLoop :: "(nat \<Rightarrow> http_response) \<Rightarrow> int \<Rightarrow> build_state \<Rightarrow> build_state" where
  "buildLoop net targetSize s =
     (if moreRounds targetSize s then buildLoop net targetSize (buildRound net targetSize s)
      else s)"
  by pat_completeness auto
termination
  by (relation "measure (\<lambda>(net, targetSize, s). MAX_REQUESTS - requestsMade s)")
    (auto simp: moreRounds_def buildRound_def BATCH_SIZE_def MAX_REQUESTS_def Let_def)

declare buildLoop.simps [simp del]

definition buildWikipediaNounPool :: "(nat \<Rightarrow> http_response) \<Rightarrow> int \<Rightarrow> build_state" where
  "buildWikipediaNounPool net targetSize =
     buildLoop net targetSize \<lparr>pool = [], requestsMade = 0, attempts = 0\<rparr>"

section \<open>Numbers as strings\<close>

text \<open>\<open>String(n)\<close> of an integer: its decimal digits, with a minus sign when negative.\<close>

definition digit :: "nat \<Rightarrow> char" where
  "digit d = char_of (48 + d)"

fun String_nat :: "nat \<Rightarrow> string" where
  "String_nat n = (if n < 10 then [digit n] else String_nat (n div 10) @ [digit (n mod 10)])"

declare String_nat.simps [simp del]

definition String_int :: "int \<Rightarrow> string" where
  "String_int i = (if i < 0 then CHR ''-'' # String_nat (nat (- i)) else String_nat (nat i))"

section \<open>The page and the remote store\<close>

text \<open>
  The values a change notification can carry: what the store holds is \<open>null\<close>, a
  boolean, a number, a string, an object or an array. A number is given by what the page
  can observe of it: whether it is truthy (it is neither 0 nor \<open>NaN\<close>) and the text that
  \<open>String\<close> gives for it, so that fractions and the exponent notation of large numbers
  are covered.
\<close>

datatype js_value =
    JUndefined
  | JNull
  | JBool bool
  | JNum bool string
  | JStr string
  | JObj "(string \<times> js_value) list"
  | JArr "js_value list"

fun truthy :: "js_value \<Rightarrow> bool" where
  "truthy JUndefined = False"
| "truthy JNull = False"
| "truthy (JBool b) = b"
| "truthy (JNum nonzero shown) = nonzero"
| "truthy (JStr s) = (s \<noteq> [])"
| "truthy (JObj kvs) = True"
| "truthy (JArr vs) = True"

text \<open>
  \<open>data.value\<close> on a truthy value: the property of an object, and \<open>undefined\<close> on a
  truthy boolean, number, string or array, none of which has a property of that name.
\<close>

fun getProp :: "js_value \<Rightarrow> string \<Rightarrow> js_value" where
  "getProp (JObj kvs) k = (case map_of kvs k of None \<Rightarrow> JUndefined | Some v \<Rightarrow> v)"
| "getProp v k = JUndefined"

text \<open>\<open>v || ''\<close>\<close>

definition orEmpty :: "js_value \<Rightarrow> js_value" where
  "orEmpty v = (if truthy v then v else JStr [])"

text \<open>
  The conversion of a value to a string. An array joins the strings of its elements with
  commas, \<open>null\<close> and \<open>undefined\<close> elements giving the empty string.
\<close>

fun ToString :: "js_value \<Rightarrow> string"
  and elementStrings :: "js_value list \<Rightarrow> string list" where
  "ToString JUndefined = ''undefined''"
| "ToString JNull = ''null''"
| "ToString (JBool b) = (if b then ''true'' else ''false'')"
| "ToString (JNum nonzero shown) = shown"
| "ToString (JStr s) = s"
| "ToString (JObj kvs) = ''[object Object]''"
| "ToString (JArr vs) = join '','' (elementStrings vs)"
| "elementStrings [] = []"
| "elementStrings (v # vs) =
     (case v of JUndefined \<Rightarrow> [] | JNull \<Rightarrow> [] | _ \<Rightarrow> ToString v) # elementStrings vs"

text \<open>
  The inputs are text inputs (\<open>createInput('')\<close>, line 103). The string such an element
  holds after \<open>input.value = v\<close>: the assignment converts its right-hand side to a
  string, \<open>null\<close> to the empty one, and the element strips the line feeds and carriage
  returns from it.
\<close>

definition isLineBreak :: "char \<Rightarrow> bool" where
  "isLineBreak c = ((of_char c :: nat) \<in> {10, 13})"

definition stripNewlines :: "string \<Rightarrow> string" where
  "stripNewlines s = filter (\<lambda>c. \<not> isLineBreak c) s"

definition domString :: "js_value \<Rightarrow> string" where
  "domString v = stripNewlines (case v of JNull \<Rightarrow> [] | _ \<Rightarrow> ToString v)"

text \<open>
  \<open>parseInt(s, 10)\<close>: leading white space is skipped, one sign is read, and the longest
  run of decimal digits that follows is the value; \<open>None\<close> is \<open>NaN\<close>, when there is no
  digit. The value is the exact integer.
\<close>

definition isDigit :: "char \<Rightarrow> bool" where
  "isDigit c = (48 \<le> (of_char c :: nat) \<and> (of_char c :: nat) \<le> 57)"

definition digitsValue :: "string \<Rightarrow> nat" where
  "digitsValue ds = fold (\<lambda>c n. 10 * n + ((of_char c :: nat) - 48)) ds 0"

definition parseInt10 :: "string \<Rightarrow> int option" where
  "parseInt10 s =
     (let t = dropWhile isWhiteSpace s;
          negative = startsWith ''-'' t;
          u = (if startsWith ''-'' t \<or> startsWith ''+'' t then tl t else t);
          z = takeWhile isDigit u
      in if z = [] then None
         else Some (if negative then - int (digitsValue z) else int (digitsValue z)))"

text \<open>
  What the store was asked to do, in order: the single writes (\<open>set\<close>), the listeners
  attached (\<open>on\<close>), and the batched updates (\<open>update\<close>).
\<close>

record field_record =
  fvalue :: string
  editedBy :: string
  updatedAt :: nat

record remote =
  sets :: "(string \<times> field_record) list"
  listeners :: "(string \<times> string) list"
  updates :: "(string \<times> field_record) list list"

text \<open>
  The page: \<open>inputs i b\<close> is the input element bound at \<open>inputs[i][b]\<close>, if any (a missing
  row and a missing cell both read as \<open>undefined\<close> through \<open>?.\<close>); \<open>elt_value\<close> is the
  \<open>value\<close> each element holds; \<open>activeElement\<close> is the element that has the focus;
  \<open>db\<close> is \<open>window.db\<close>; \<open>status\<close> is the text of the status element, when the page has one.
\<close>

type_synonym elt = nat

record page =
  inputs :: "nat \<Rightarrow> nat \<Rightarrow> elt option"
  elt_value :: "elt \<Rightarrow> string"
  activeElement :: "elt option"
  db :: "remote option"
  clientId :: string
  status :: "string option"

text \<open>\<open>setStatus\<close>, lines 47-50, without the timer that clears the message later.\<close>

definition setStatus :: "string \<Rightarrow> page \<Rightarrow> page" where
  "setStatus msg st = (case status st of None \<Rightarrow> st | Some old \<Rightarrow> st\<lparr>status := Some msg\<rparr>)"

definition pathFor :: "nat \<Rightarrow> nat \<Rightarrow> string" where
  "pathFor lineIdx blankIdx = ''blanks/'' @ String_nat lineIdx @ ''/'' @ String_nat blankIdx"

text \<open>
  \<open>writeBlank\<close>, lines 114-119, at the time \<open>now\<close>. The write is not awaited, and its
  failure is only logged to the console.
\<close>

definition writeBlank :: "nat \<Rightarrow> nat \<Rightarrow> string \<Rightarrow> nat \<Rightarrow> page \<Rightarrow> page" where
  "writeBlank lineIdx blankIdx v now st =
     (case db st of
        None \<Rightarrow> st
      | Some r \<Rightarrow>
          st\<lparr>db := Some (r\<lparr>sets := sets r @
                [(pathFor lineIdx blankIdx,
                  \<lparr>fvalue = v, editedBy = clientId st, updatedAt = now\<rparr>)]\<rparr>)\<rparr>)"

definition attachLineListener :: "nat \<Rightarrow> page \<Rightarrow> page" where
  "attachLineListener lineIdx st =
     (case db st of
        None \<Rightarrow> st
      | Some r \<Rightarrow>
          st\<lparr>db := Some (r\<lparr>listeners := listeners r @
                [(''blanks/'' @ String_nat lineIdx, ''child_added''),
                 (''blanks/'' @ String_nat lineIdx, ''child_changed'')]\<rparr>)\<rparr>)"

text \<open>A snapshot: its key and what \<open>val()\<close> returns.\<close>

record snapshot =
  snap_key :: string
  snap_val :: js_value

text \<open>\<open>inputs[lineIdx]?.[blankIdx]\<close> for an integer index: nothing is bound below zero.\<close>

definition inputAt :: "page \<Rightarrow> nat \<Rightarrow> int \<Rightarrow> elt option" where
  "inputAt st lineIdx blankIdx = (if blankIdx < 0 then None else inputs st lineIdx (nat blankIdx))"

text \<open>\<open>applyRemote\<close>, lines 128-134.\<close>

definition applyRemote :: "nat \<Rightarrow> snapshot \<Rightarrow> page \<Rightarrow> page" where
  "applyRemote lineIdx snap st =
     (let blankIdx = parseInt10 (snap_key snap);
          data = snap_val snap
      in case blankIdx of
           None \<Rightarrow> st
         | Some b \<Rightarrow>
             if \<not> truthy data then st
             else (case inputAt st lineIdx b of
                     None \<Rightarrow> st
                   | Some input \<Rightarrow>
                       if activeElement st \<noteq> Some input
                       then st\<lparr>elt_value := (elt_value st)
                              (input := domString (orEmpty (getProp data ''value'')))\<rparr>
                       else st))"

text \<open>\<open>valueAt\<close>, line 210.\<close>

definition valueAt :: "page \<Rightarrow> nat \<Rightarrow> nat \<Rightarrow> string" where
  "valueAt st i b =
     (case inputs st i b of
        None \<Rightarrow> []
      | Some e \<Rightarrow> if elt_value st e = [] then [] else elt_value st e)"

section \<open>Reset\<close>

text \<open>The local clear of lines 268-272.\<close>

definition clearBlank :: "nat \<Rightarrow> nat \<Rightarrow> page \<Rightarrow> page" where
  "clearBlank i b st =
     (case inputs st i b of
        None \<Rightarrow> st
      | Some e \<Rightarrow> st\<lparr>elt_value := (elt_value st)(e := [])\<rparr>)"

definition clearLocal :: "page \<Rightarrow> page" where
  "clearLocal st =
     fold (\<lambda>i st'. fold (\<lambda>b st''. clearBlank i b st'') [0..<BLANKS_PER_LINE] st') [0..<LINES] st"

text \<open>The batch of lines 275-280: one empty record for every path, in the order of the loops.\<close>

definition resetUpdates :: "string \<Rightarrow> nat \<Rightarrow> (string \<times> field_record) list" where
  "resetUpdates cid now =
     concat (map (\<lambda>i. map (\<lambda>b. (pathFor i b, \<lparr>fvalue = [], editedBy = cid, updatedAt = now\<rparr>))
                        [0..<BLANKS_PER_LINE])
                 [0..<LINES])"

datatype outcome = Resolved | Rejected

text \<open>
  \<open>onReset\<close>, lines 264-288: \<open>confirmed\<close> is the answer to the dialog, \<open>result\<close> is how
  the awaited batched update ends, a rejection being caught at line 284. The handler is
  modelled as one step: what else happens on the page while the update is awaited is not
  part of it.
\<close>

definition onReset :: "bool \<Rightarrow> outcome \<Rightarrow> nat \<Rightarrow> page \<Rightarrow> page" where
  "onReset confirmed result now st =
     (if \<not> confirmed then st
      else (let st1 = clearLocal st
            in case db st1 of
                 None \<Rightarrow> setStatus ''All blanks reset.'' st1
               | Some r \<Rightarrow>
                   (let st2 = st1\<lparr>db := Some (r\<lparr>updates := updates r @
                                 [resetUpdates (clientId st1) now]\<rparr>)\<rparr>
                    in case result of
                         Resolved \<Rightarrow> setStatus ''All blanks reset.'' st2
                       | Rejected \<Rightarrow> setStatus ''Reset failed. Check console.'' st2)))"

section \<open>Compose and export\<close>

text \<open>The static segments of lines 18-23; a line outside the grid has none.\<close>

definition segments :: "nat \<Rightarrow> string list option" where
  "segments i =
     (if i < LINES
      then Some [''Line '' @ String_nat (i + 1) @ '': Before'', ''then'', ''and then'', ''finally'']
      else None)"

text \<open>
  \<open>s.replace(/\s+/g, ' ')\<close>: every maximal run of white space becomes one space. The
  last character of a run is turned into the space, the ones before it are dropped.
\<close>

fun collapseWs :: "string \<Rightarrow> string" where
  "collapseWs [] = []"
| "collapseWs (c # cs) =
     (if isWhiteSpace c
      then (case cs of
              [] \<Rightarrow> CHR '' '' # collapseWs cs
            | d # ds \<Rightarrow> if isWhiteSpace d then collapseWs cs else CHR '' '' # collapseWs cs)
      else c # collapseWs cs)"

declare collapseWs.simps(2) [simp del]

text \<open>\<open>s.trim()\<close>\<close>

definition trim :: "string \<Rightarrow> string" where
  "trim s = rev (dropWhile isWhiteSpace (rev (dropWhile isWhiteSpace s)))"

datatype js_error = TypeError

text \<open>
  \<open>composeLine\<close>, lines 212-220. Reading \<open>segments[i][0]\<close> for a line that has no
  segments throws.
\<close>

definition composeLine :: "page \<Rightarrow> nat \<Rightarrow> js_error + string" where
  "composeLine st i =
     (case segments i of
        None \<Rightarrow> Inl TypeError
      | Some seg \<Rightarrow>
          (let parts = [seg ! 0, valueAt st i 0,
                        seg ! 1, valueAt st i 1,
                        seg ! 2, valueAt st i 2,
                        seg ! 3]
           in Inr (trim (collapseWs (join '' '' parts)))))"

section \<open>The download name\<close>

text \<open>
  The fields of the \<open>Date\<close> that \<open>stamp\<close> reads, in local time, under the names of their
  getters.
\<close>

record js_date =
  getFullYear :: int
  getMonth :: nat
  getDate :: nat
  getHours :: nat
  getMinutes :: nat
  getSeconds :: nat

definition padStart :: "nat \<Rightarrow> char \<Rightarrow> string \<Rightarrow> string" where
  "padStart n c s = (if length s < n then replicate (n - length s) c @ s else s)"

text \<open>\<open>stamp\<close>, lines 51-54, on the date \<open>d\<close> that \<open>new Date()\<close> gave.\<close>

definition pad :: "nat \<Rightarrow> string" where
  "pad n = padStart 2 CHR ''0'' (String_nat n)"

definition stamp :: "js_date \<Rightarrow> string" where
  "stamp d =
     String_int (getFullYear d) @ pad (getMonth d + 1) @ pad (getDate d) @ ''-''
     @ pad (getHours d) @ pad (getMinutes d) @ pad (getSeconds d)"

text \<open>The file name of line 247.\<close>

definition downloadName :: "js_date \<Rightarrow> string" where
  "downloadName d = ''fill-in-blanks-'' @ stamp d @ ''.txt''"

section \<open>Debounced edits\<close>

text \<open>
  Each blank has its own debounced listener (line 106): \<open>debounce(fn, 250)\<close> keeps one
  timer \<open>t\<close>; every call clears it and starts a new one that is due 250 ms later. The
  timer of one field is modelled by the time at which it is due, \<open>None\<close> when none is
  pending. Time is counted in milliseconds.
\<close>

definition QUIET_MS :: nat where
  "QUIET_MS = 250"

text \<open>
  An edit at the time \<open>now\<close>: the browser stores the typed text in the element and
  fires the input event, and the debounced listener restarts the timer.
\<close>

definition onInput :: "elt \<Rightarrow> string \<Rightarrow> nat \<Rightarrow> page \<times> nat option \<Rightarrow> page \<times> nat option" where
  "onInput input v now s =
     (case s of (st, t) \<Rightarrow>
        (st\<lparr>elt_value := (elt_value st)(input := v)\<rparr>, Some (now + QUIET_MS)))"

text \<open>
  The clock reaches \<open>now\<close>: a pending timer that is due runs its callback
  \<open>writeBlank(lineIdx, blankIdx, e.target.value)\<close>, which reads the value the element
  holds when the timer runs. The callback is taken to run when it is due.
\<close>

definition elapse :: "nat \<Rightarrow> nat \<Rightarrow> elt \<Rightarrow> nat \<Rightarrow> page \<times> nat option \<Rightarrow> page \<times> nat option" where
  "elapse lineIdx blankIdx input now s =
     (case s of (st, t) \<Rightarrow>
        (case t of
           None \<Rightarrow> (st, None)
         | Some due \<Rightarrow>
             if due \<le> now
             then (writeBlank lineIdx blankIdx (elt_value st input) due st, None)
             else (st, Some due)))"

text \<open>
  A sequence of edits of one field, each given with the time that passed since the
  edit before it (for the first one, since \<open>now\<close>). The result is the state after the
  last edit and the time of that edit.
\<close>

fun typing ::
  "nat \<Rightarrow> nat \<Rightarrow> elt \<Rightarrow> (nat \<times> string) list \<Rightarrow> nat \<Rightarrow> page \<times> nat option
    \<Rightarrow> (page \<times> nat option) \<times> nat" where
  "typing lineIdx blankIdx input [] now s = (s, now)"
| "typing lineIdx blankIdx input ((gap, v) # edits) now s =
     typing lineIdx blankIdx input edits (now + gap)
       (onInput input v (now + gap) (elapse lineIdx blankIdx input (now + gap) s))"

text \<open>
  What else can happen on the page while a timer is pending. An event is an edit of the
  field, a change notification for some line, a change of the focus, or a reset. Only
  an edit calls the debounced listener; the others leave the timer alone.
\<close>

datatype event =
    Edit string
  | Notify nat snapshot
  | FocusOn "elt option"
  | ResetAll bool outcome

definition handleEvent :: "elt \<Rightarrow> event \<Rightarrow> nat \<Rightarrow> page \<times> nat option \<Rightarrow> page \<times> nat option" where
  "handleEvent input ev now s =
     (case s of (st, t) \<Rightarrow>
        (case ev of
           Edit v \<Rightarrow> onInput input v now (st, t)
         | Notify lineIdx snap \<Rightarrow> (applyRemote lineIdx snap st, t)
         | FocusOn a \<Rightarrow> (st\<lparr>activeElement := a\<rparr>, t)
         | ResetAll confirmed result \<Rightarrow> (onReset confirmed result now st, t)))"

text \<open>
  A sequence of events, each given with the time that passed since the event before it.
  Before an event is handled, a timer that is due runs.
\<close>

fun session ::
  "nat \<Rightarrow> nat \<Rightarrow> elt \<Rightarrow> (nat \<times> event) list \<Rightarrow> nat \<Rightarrow> page \<times> nat option
    \<Rightarrow> (page \<times> nat option) \<times> nat" where
  "session lineIdx blankIdx input [] now s = (s, now)"
| "session lineIdx blankIdx input ((gap, ev) # evs) now s =
     session lineIdx blankIdx input evs (now + gap)
       (handleEvent input ev (now + gap) (elapse lineIdx blankIdx input (now + gap) s))"

section \<open>Dealing the suggestions\<close>












section \<open>Notions used to state the properties\<close>

text \<open>The position at which a value is first seen in a list (its length when absent).\<close>

definition firstSeen :: "'a list \<Rightarrow> 'a \<Rightarrow> nat" where
  "firstSeen xs x = length (takeWhile (\<lambda>y. y \<noteq> x) xs)"

text \<open>
  \<open>ranked f R a b\<close>: \<open>a\<close> goes before \<open>b\<close> in a descending order by the key \<open>f\<close>
  whose ties are decided by \<open>R\<close>.
\<close>

definition ranked :: "('a \<Rightarrow> nat) \<Rightarrow> ('a \<Rightarrow> 'a \<Rightarrow> bool) \<Rightarrow> 'a \<Rightarrow> 'a \<Rightarrow> bool" where
  "ranked f R a b = (f b < f a \<or> (f a = f b \<and> R a b))"

text \<open>A request succeeded when its promise resolved.\<close>

definition succeeded :: "http_response \<Rightarrow> bool" where
  "succeeded resp = (case fetchWikipediaRandomSummary resp of Inl e \<Rightarrow> False | Inr r \<Rightarrow> True)"





text \<open>
  A page to evaluate on: every field of the grid is bound to an element of its own, the
  element of field (1, 1) holds a draft and has the focus, and a store is configured.
\<close>

definition examplePage :: page where
  "examplePage =
     \<lparr>inputs = (\<lambda>i b. if i < LINES \<and> b < BLANKS_PER_LINE
                        then Some (i * BLANKS_PER_LINE + b) else None),
      elt_value = (\<lambda>e. if e = 4 then ''draft'' else if e = 7 then ''seven'' else []),
      activeElement = Some 4,
      db = Some \<lparr>sets = [], listeners = [], updates = []\<rparr>,
      clientId = ''k3x9'',
      status = Some []\<rparr>"

text \<open>The words of a string: its pieces between white space, the empty ones left out.\<close>

definition wordsOf :: "string \<Rightarrow> string list" where
  "wordsOf s = filter (\<lambda>w. w \<noteq> []) (splitWs s)"

text \<open>A string has a run when two white space characters stand side by side in it.\<close>

fun hasRun :: "string \<Rightarrow> bool" where
  "hasRun (a # b # cs) = ((isWhiteSpace a \<and> isWhiteSpace b) \<or> hasRun (b # cs))"
| "hasRun cs = False"

text \<open>Decimal numbers of two and of four digits, and the dates whose fields are in range.\<close>

definition twoDigits :: "nat \<Rightarrow> string" where
  "twoDigits n = [digit (n div 10), digit (n mod 10)]"

definition fourDigits :: "nat \<Rightarrow> string" where
  "fourDigits n = [digit (n div 1000), digit (n div 100 mod 10), digit (n div 10 mod 10),
                   digit (n mod 10)]"

definition validDate :: "js_date \<Rightarrow> bool" where
  "validDate d =
     (1000 \<le> getFullYear d \<and> getFullYear d \<le> 9999
      \<and> getMonth d < 12 \<and> 1 \<le> getDate d \<and> getDate d \<le> 31
      \<and> getHours d < 24 \<and> getMinutes d < 60 \<and> getSeconds d < 60)"



chapter \<open>Properties\<close>

section \<open>Insertion-ordered sets: order of first occurrence\<close>

lemma Set_add_set: "set (Set_add s x) = insert x (set s)"
  by (auto simp: Set_add_def)

lemma Set_add_distinct: "distinct s \<Longrightarrow> distinct (Set_add s x)"
  by (simp add: Set_add_def)

lemma Set_from_snoc: "Set_from (xs @ [x]) = Set_add (Set_from xs) x"
  by (simp add: Set_from_def)

lemma Set_from_set: "set (Set_from xs) = set xs"
  by (induction xs rule: rev_induct) (auto simp: Set_from_snoc Set_add_set Set_from_def)

lemma Set_from_distinct: "distinct (Set_from xs)"
  by (induction xs rule: rev_induct) (auto simp: Set_from_snoc Set_add_distinct Set_from_def)

lemma firstSeen_snoc_mem: "a \<in> set xs \<Longrightarrow> firstSeen (xs @ [x]) a = firstSeen xs a"
  by (simp add: firstSeen_def)

lemma firstSeen_snoc_new: "x \<notin> set xs \<Longrightarrow> firstSeen (xs @ [x]) x = length xs"
  by (induction xs) (auto simp: firstSeen_def)

lemma firstSeen_less: "a \<in> set xs \<Longrightarrow> firstSeen xs a < length xs"
  by (induction xs) (auto simp: firstSeen_def)

text \<open>The members of a set built from a list stand in the order of their first occurrence.\<close>

lemma Set_from_firstSeen:
  "sorted_wrt (\<lambda>a b. firstSeen xs a < firstSeen xs b) (Set_from xs)"
proof (induction xs rule: rev_induct)
  case Nil
  show ?case by (simp add: Set_from_def)
next
  case (snoc x xs)
  have mono: "sorted_wrt (\<lambda>a b. firstSeen (xs @ [x]) a < firstSeen (xs @ [x]) b) (Set_from xs)"
    using snoc.IH
    by (rule sorted_wrt_mono_rel [rotated]) (simp add: Set_from_set firstSeen_snoc_mem)
  show ?case
  proof (cases "x \<in> set xs")
    case True
    then show ?thesis using mono by (simp add: Set_from_snoc Set_add_def Set_from_set)
  next
    case False
    then show ?thesis using mono
      by (auto simp: Set_from_snoc Set_add_def Set_from_set sorted_wrt_append
          firstSeen_snoc_mem firstSeen_snoc_new firstSeen_less)
  qed
qed

section \<open>The stable sort\<close>

lemma insertBy_set: "set (insertBy cmp x ys) = insert x (set ys)"
  by (induction ys) auto

lemma Array_sort_Cons: "Array_sort cmp (x # xs) = insertBy cmp x (Array_sort cmp xs)"
  by (simp add: Array_sort_def)

lemma Array_sort_set: "set (Array_sort cmp xs) = set xs"
  by (induction xs) (simp_all add: Array_sort_Cons insertBy_set, simp add: Array_sort_def)

lemma insertBy_distinct: "distinct ys \<Longrightarrow> x \<notin> set ys \<Longrightarrow> distinct (insertBy cmp x ys)"
  by (induction ys) (auto simp: insertBy_set)

lemma Array_sort_distinct: "distinct xs \<Longrightarrow> distinct (Array_sort cmp xs)"
  by (induction xs)
    (simp_all add: Array_sort_Cons insertBy_distinct Array_sort_set, simp add: Array_sort_def)

lemma insertBy_ranked:
  assumes "sorted_wrt (ranked f R) ys" and "\<forall>y\<in>set ys. R x y"
  shows "sorted_wrt (ranked f R) (insertBy (\<lambda>a b. int (f b) - int (f a)) x ys)"
  using assms
proof (induction ys)
  case Nil
  then show ?case by simp
next
  case (Cons y ys)
  show ?case
  proof (cases "f y \<le> f x")
    case True
    have "ranked f R x z" if "z \<in> set (y # ys)" for z
    proof -
      have "f z \<le> f y" using that Cons.prems(1) by (auto simp: ranked_def)
      moreover have "R x z" using that Cons.prems(2) by auto
      ultimately show ?thesis using True by (auto simp: ranked_def)
    qed
    then show ?thesis using True Cons.prems(1) by simp
  next
    case False
    then have "ranked f R y x" by (simp add: ranked_def)
    then show ?thesis using False Cons by (auto simp: insertBy_set)
  qed
qed

text \<open>
  Sorting by descending key keeps, among equal keys, the order the list came in.
\<close>

lemma Array_sort_ranked:
  "sorted_wrt R xs \<Longrightarrow> sorted_wrt (ranked f R) (Array_sort (\<lambda>a b. int (f b) - int (f a)) xs)"
  by (induction xs)
    (simp_all add: Array_sort_Cons insertBy_ranked Array_sort_set, simp add: Array_sort_def)

section \<open>Candidate extraction: frequency order\<close>

lemma freq_map_snoc: "freq_map (ws @ [w]) = (freq_map ws)(w \<mapsto> freq_get (freq_map ws) w + 1)"
  by (simp add: freq_map_def)

lemma freq_get_count: "freq_get (freq_map ws) w = count_list ws w"
  by (induction ws rule: rev_induct)
    (simp_all add: freq_map_snoc freq_get_def, simp add: freq_map_def)

lemma count_list_filter: "count_list (filter P xs) x = (if P x then count_list xs x else 0)"
  by (induction xs) auto

lemma candidates_Nil: "candidates [] = []"
  by (simp add: candidates_def words_of_def tokens_def toLowerCase_def replaceNonWord_def
      keepWord_def)

lemma byFrequency_count:
  "byFrequency (freq_map ws) = (\<lambda>a b. int (count_list ws b) - int (count_list ws a))"
  by (simp add: byFrequency_def freq_get_count fun_eq_iff)

lemma extract_set: "set (extractCandidateNounsFromText text) = set (candidates text)"
  by (simp add: extractCandidateNounsFromText_def Array_sort_set Set_from_set candidates_Nil)

lemma extract_distinct: "distinct (extractCandidateNounsFromText text)"
  by (simp add: extractCandidateNounsFromText_def Array_sort_distinct Set_from_distinct)

lemma extract_ranked:
  "sorted_wrt
     (ranked (count_list (candidates text))
        (\<lambda>a b. firstSeen (candidates text) a < firstSeen (candidates text) b))
     (extractCandidateNounsFromText text)"
  by (simp add: extractCandidateNounsFromText_def byFrequency_count Array_sort_ranked
      Set_from_firstSeen)

lemma candidates_count:
  "w \<in> set (candidates text) \<Longrightarrow> count_list (candidates text) w = count_list (tokens text) w"
  by (simp add: candidates_def words_of_def count_list_filter)

lemma extract_example:
  "extractCandidateNounsFromText
     ''The cats and dogs are running and jumping, something amazing''
   = [''cats'', ''dogs'', ''something'']"
  by code_simp

text \<open>
  C1. \<open>extractCandidateNounsFromText\<close> is a function of its input string alone. For every
  text, the list it returns has no duplicates, holds exactly the candidate tokens of the
  text, and is ordered by descending frequency, tokens of equal frequency standing in the
  order in which they are first seen; the frequency of a returned token among the
  candidates is its frequency among all tokens of the document. On the text
  "The cats and dogs are running and jumping, something amazing" the result is
  cats, dogs, something: the stop-words the, and, are and the gerunds running, jumping,
  amazing are left out, and something is kept.
\<close>

theorem extractCandidateNounsFromText_frequency_order:
  "distinct (extractCandidateNounsFromText text)
   \<and> set (extractCandidateNounsFromText text) = set (candidates text)
   \<and> sorted_wrt
       (ranked (count_list (candidates text))
          (\<lambda>a b. firstSeen (candidates text) a < firstSeen (candidates text) b))
       (extractCandidateNounsFromText text)
   \<and> (\<forall>w \<in> set (extractCandidateNounsFromText text).
         count_list (candidates text) w = count_list (tokens text) w)
   \<and> extractCandidateNounsFromText
       ''The cats and dogs are running and jumping, something amazing''
     = [''cats'', ''dogs'', ''something'']"
  using extract_distinct [of "text"] extract_set [of "text"] extract_ranked [of "text"]
    candidates_count [of _ "text"] extract_example
  by simp

theorem extractCandidateNounsFromText_frequency_order_witness:
  "extractCandidateNounsFromText ''Zebra, cat; dog cat emu dog Cat'' =
     [''cat'', ''dog'', ''zebra'', ''emu'']
   \<and> ''cat'' \<in> set (extractCandidateNounsFromText ''Zebra, cat; dog cat emu dog Cat'')
   \<and> count_list (candidates ''Zebra, cat; dog cat emu dog Cat'') ''cat'' = 3
   \<and> count_list (tokens ''Zebra, cat; dog cat emu dog Cat'') ''cat'' = 3
   \<and> ranked (count_list (candidates ''Zebra, cat; dog cat emu dog Cat''))
        (\<lambda>a b. firstSeen (candidates ''Zebra, cat; dog cat emu dog Cat'') a
              < firstSeen (candidates ''Zebra, cat; dog cat emu dog Cat'') b)
        ''zebra'' ''emu''"
proof -
  have e: "extractCandidateNounsFromText ''Zebra, cat; dog cat emu dog Cat'' =
      [''cat'', ''dog'', ''zebra'', ''emu'']"
    by code_simp
  have c: "candidates ''Zebra, cat; dog cat emu dog Cat'' =
      [''zebra'', ''cat'', ''dog'', ''cat'', ''emu'', ''dog'', ''cat'']"
    by code_simp
  show ?thesis
    using extractCandidateNounsFromText_frequency_order
      [of "''Zebra, cat; dog cat emu dog Cat''"]
    unfolding e c by simp
qed

section \<open>Building the pool: request budget\<close>

lemma buildLoop_stop: "\<not> moreRounds targetSize s \<Longrightarrow> buildLoop net targetSize s = s"
  by (subst buildLoop.simps) simp

lemma buildLoop_step:
  "moreRounds targetSize s \<Longrightarrow>
     buildLoop net targetSize s = buildLoop net targetSize (buildRound net targetSize s)"
  by (subst buildLoop.simps) simp

lemma buildRound_counters:
  "requestsMade (buildRound net targetSize s)
     = requestsMade s + min BATCH_SIZE (MAX_REQUESTS - requestsMade s)"
  "attempts (buildRound net targetSize s)
     = attempts s + min BATCH_SIZE (MAX_REQUESTS - requestsMade s)"
  by (simp_all add: buildRound_def Let_def)

lemma buildLoop_exit: "\<not> moreRounds targetSize (buildLoop net targetSize s)"
proof (induction net targetSize s rule: buildLoop.induct)
  case (1 net targetSize s)
  then show ?case
    by (cases "moreRounds targetSize s") (simp_all add: buildLoop_step buildLoop_stop)
qed

text \<open>The counter and the number of requests sent agree and stay within the budget.\<close>

lemma buildLoop_budget:
  "attempts s = requestsMade s \<Longrightarrow> requestsMade s \<le> MAX_REQUESTS \<Longrightarrow>
     attempts (buildLoop net targetSize s) = requestsMade (buildLoop net targetSize s)
     \<and> requestsMade (buildLoop net targetSize s) \<le> MAX_REQUESTS"
proof (induction net targetSize s rule: buildLoop.induct)
  case (1 net targetSize s)
  show ?case
  proof (cases "moreRounds targetSize s")
    case True
    have "attempts (buildRound net targetSize s) = requestsMade (buildRound net targetSize s)"
      using "1.prems" by (simp add: buildRound_counters)
    moreover have "requestsMade (buildRound net targetSize s) \<le> MAX_REQUESTS"
      using "1.prems" by (simp add: buildRound_counters)
    ultimately show ?thesis using "1.IH" True by (simp add: buildLoop_step)
  next
    case False
    then show ?thesis using "1.prems" by (simp add: buildLoop_stop)
  qed
qed

text \<open>The loop ends at the first round boundary at which its guard fails.\<close>

lemma buildLoop_rounds:
  "(\<forall>j<k. moreRounds targetSize ((buildRound net targetSize ^^ j) s)) \<Longrightarrow>
   \<not> moreRounds targetSize ((buildRound net targetSize ^^ k) s) \<Longrightarrow>
   buildLoop net targetSize s = (buildRound net targetSize ^^ k) s"
proof (induction k arbitrary: s)
  case 0
  then show ?case by (simp add: buildLoop_stop)
next
  case (Suc k)
  have first: "moreRounds targetSize s" using Suc.prems(1) by auto
  have "\<forall>j<k. moreRounds targetSize
      ((buildRound net targetSize ^^ j) (buildRound net targetSize s))"
  proof (intro allI impI)
    fix j assume "j < k"
    then have "moreRounds targetSize ((buildRound net targetSize ^^ Suc j) s)"
      using Suc.prems(1) by (meson Suc_less_eq)
    then show "moreRounds targetSize
        ((buildRound net targetSize ^^ j) (buildRound net targetSize s))"
      by (simp add: funpow_swap1)
  qed
  moreover have "\<not> moreRounds targetSize
      ((buildRound net targetSize ^^ k) (buildRound net targetSize s))"
    using Suc.prems(2) by (simp add: funpow_swap1)
  ultimately have "buildLoop net targetSize (buildRound net targetSize s)
      = (buildRound net targetSize ^^ k) (buildRound net targetSize s)"
    by (rule Suc.IH)
  then show ?case using first by (simp add: buildLoop_step funpow_swap1)
qed

text \<open>The failed requests of a batch can be struck from it: the pool comes out the same.\<close>

lemma absorb_failures:
  "absorb targetSize p (map fetchTask resps)
     = absorb targetSize p (map fetchTask (filter succeeded resps))"
  by (induction resps arbitrary: p)
    (auto simp: fetchTask_def succeeded_def Let_def
      split: sum.splits option.splits summary.splits)

lemma absorb_all_failed:
  "\<forall>r \<in> set rs. r = None \<Longrightarrow> absorb targetSize p rs = p"
  by (induction rs) auto

lemma buildRound_all_failed:
  "\<forall>k. \<not> succeeded (net k) \<Longrightarrow> pool (buildRound net targetSize s) = pool s"
  by (simp add: buildRound_def Let_def absorb_all_failed fetchTask_def succeeded_def
      split: sum.splits)

lemma buildLoop_all_failed:
  "\<forall>k. \<not> succeeded (net k) \<Longrightarrow> pool (buildLoop net targetSize s) = pool s"
proof (induction net targetSize s rule: buildLoop.induct)
  case (1 net targetSize s)
  then show ?case
    by (cases "moreRounds targetSize s")
      (simp_all add: buildLoop_step buildLoop_stop buildRound_all_failed)
qed

lemma build_budget:
  "attempts (buildWikipediaNounPool net targetSize)
     = requestsMade (buildWikipediaNounPool net targetSize)
   \<and> requestsMade (buildWikipediaNounPool net targetSize) \<le> MAX_REQUESTS"
  unfolding buildWikipediaNounPool_def by (rule buildLoop_budget) simp_all

lemma build_exit: "\<not> moreRounds targetSize (buildWikipediaNounPool net targetSize)"
  unfolding buildWikipediaNounPool_def by (rule buildLoop_exit)

lemma build_all_failed:
  assumes "\<forall>k. \<not> succeeded (net k)" and "0 < targetSize"
  shows "buildWikipediaNounPool net targetSize
     = \<lparr>pool = [], requestsMade = MAX_REQUESTS, attempts = MAX_REQUESTS\<rparr>"
proof -
  let ?B = "buildWikipediaNounPool net targetSize"
  have p: "pool ?B = []"
    using buildLoop_all_failed [OF assms(1)] by (simp add: buildWikipediaNounPool_def)
  have b: "attempts ?B = requestsMade ?B \<and> requestsMade ?B \<le> MAX_REQUESTS"
    by (rule build_budget)
  have "requestsMade ?B = MAX_REQUESTS"
    using build_exit [of targetSize net] p b assms(2) by (simp add: moreRounds_def)
  then show ?thesis using p b by (cases ?B) simp
qed

text \<open>
  C2. For every target size and every behaviour of the network, the build returns, and it
  has sent at most \<open>MAX_REQUESTS\<close> requests, as many as its counter says; on return the
  pool has reached the target or the budget is spent. A loop state whose pool has reached
  the target is returned as it is, with no further round, and the build ends at the first
  round boundary at which the target is reached or the budget spent. Failed requests
  contribute nothing: striking them from a batch leaves the pool the same, and a build
  in which every request fails still returns, with the empty pool, after
  \<open>MAX_REQUESTS\<close> requests.
\<close>

theorem buildWikipediaNounPool_budget_termination:
  "attempts (buildWikipediaNounPool net targetSize) \<le> MAX_REQUESTS
   \<and> attempts (buildWikipediaNounPool net targetSize)
       = requestsMade (buildWikipediaNounPool net targetSize)
   \<and> (targetSize \<le> int (length (pool (buildWikipediaNounPool net targetSize)))
       \<or> attempts (buildWikipediaNounPool net targetSize) = MAX_REQUESTS)
   \<and> (\<forall>s. targetSize \<le> int (length (pool s)) \<longrightarrow> buildLoop net targetSize s = s)
   \<and> (\<forall>k. (\<forall>j<k. moreRounds targetSize
                ((buildRound net targetSize ^^ j) \<lparr>pool = [], requestsMade = 0, attempts = 0\<rparr>))
          \<and> \<not> moreRounds targetSize
                ((buildRound net targetSize ^^ k) \<lparr>pool = [], requestsMade = 0, attempts = 0\<rparr>)
          \<longrightarrow> buildWikipediaNounPool net targetSize
                = (buildRound net targetSize ^^ k) \<lparr>pool = [], requestsMade = 0, attempts = 0\<rparr>)
   \<and> (\<forall>p resps. absorb targetSize p (map fetchTask resps)
          = absorb targetSize p (map fetchTask (filter succeeded resps)))
   \<and> ((\<forall>k. \<not> succeeded (net k)) \<and> 0 < targetSize
        \<longrightarrow> buildWikipediaNounPool net targetSize
            = \<lparr>pool = [], requestsMade = MAX_REQUESTS, attempts = MAX_REQUESTS\<rparr>)"
proof (intro conjI allI impI)
  show "attempts (buildWikipediaNounPool net targetSize) \<le> MAX_REQUESTS"
    using build_budget [of net targetSize] by simp
  show "attempts (buildWikipediaNounPool net targetSize)
      = requestsMade (buildWikipediaNounPool net targetSize)"
    using build_budget [of net targetSize] by simp
  show "targetSize \<le> int (length (pool (buildWikipediaNounPool net targetSize)))
      \<or> attempts (buildWikipediaNounPool net targetSize) = MAX_REQUESTS"
    using build_budget [of net targetSize] build_exit [of targetSize net]
    by (auto simp: moreRounds_def)
next
  fix s :: build_state
  assume "targetSize \<le> int (length (pool s))"
  then show "buildLoop net targetSize s = s"
    by (simp add: buildLoop_stop moreRounds_def)
next
  fix k
  assume "(\<forall>j<k. moreRounds targetSize
              ((buildRound net targetSize ^^ j) \<lparr>pool = [], requestsMade = 0, attempts = 0\<rparr>))
        \<and> \<not> moreRounds targetSize
              ((buildRound net targetSize ^^ k) \<lparr>pool = [], requestsMade = 0, attempts = 0\<rparr>)"
  then show "buildWikipediaNounPool net targetSize
      = (buildRound net targetSize ^^ k) \<lparr>pool = [], requestsMade = 0, attempts = 0\<rparr>"
    unfolding buildWikipediaNounPool_def by (intro buildLoop_rounds) simp_all
next
  fix p resps
  show "absorb targetSize p (map fetchTask resps)
      = absorb targetSize p (map fetchTask (filter succeeded resps))"
    by (rule absorb_failures)
next
  assume "(\<forall>k. \<not> succeeded (net k)) \<and> 0 < targetSize"
  then show "buildWikipediaNounPool net targetSize
      = \<lparr>pool = [], requestsMade = MAX_REQUESTS, attempts = MAX_REQUESTS\<rparr>"
    by (simp add: build_all_failed)
qed

theorem buildWikipediaNounPool_budget_termination_witness:
  "buildWikipediaNounPool
     (\<lambda>k. if k < 7 then NetworkFailure
          else Response True 200 (Parsed (Some (Summary (Some ''alpha beta gamma delta'')))))
     3
   = \<lparr>pool = [''alpha'', ''beta'', ''gamma''], requestsMade = 10, attempts = 10\<rparr>
   \<and> (buildRound
        (\<lambda>k. if k < 7 then NetworkFailure
             else Response True 200 (Parsed (Some (Summary (Some ''alpha beta gamma delta'')))))
        3 ^^ 2) \<lparr>pool = [], requestsMade = 0, attempts = 0\<rparr>
     = \<lparr>pool = [''alpha'', ''beta'', ''gamma''], requestsMade = 10, attempts = 10\<rparr>
   \<and> \<not> succeeded NetworkFailure
   \<and> buildWikipediaNounPool (\<lambda>k. NetworkFailure) 3
     = \<lparr>pool = [], requestsMade = MAX_REQUESTS, attempts = MAX_REQUESTS\<rparr>"
proof -
  let ?net = "\<lambda>k::nat. if k < 7 then NetworkFailure
     else Response True 200 (Parsed (Some (Summary (Some ''alpha beta gamma delta''))))"
  let ?init = "\<lparr>pool = [], requestsMade = 0, attempts = 0\<rparr>"
  have r0: "moreRounds 3 ?init"
    by code_simp
  have r1: "moreRounds 3 (buildRound ?net 3 ?init)"
    by code_simp
  have r2: "(buildRound ?net 3 ^^ 2) ?init
      = \<lparr>pool = [''alpha'', ''beta'', ''gamma''], requestsMade = 10, attempts = 10\<rparr>"
    by code_simp
  have stop: "\<not> moreRounds 3 ((buildRound ?net 3 ^^ 2) ?init)"
    unfolding r2 by (simp add: moreRounds_def)
  have before: "\<forall>j<2. moreRounds 3 ((buildRound ?net 3 ^^ j) ?init)"
    using r0 r1 by (auto simp: less_Suc_eq numeral_2_eq_2)
  have run: "buildWikipediaNounPool ?net 3 = (buildRound ?net 3 ^^ 2) ?init"
    using buildWikipediaNounPool_budget_termination [of ?net 3] before stop by blast
  have f: "\<not> succeeded NetworkFailure"
    by (simp add: succeeded_def)
  have failed: "buildWikipediaNounPool (\<lambda>k. NetworkFailure) 3
      = \<lparr>pool = [], requestsMade = MAX_REQUESTS, attempts = MAX_REQUESTS\<rparr>"
    using buildWikipediaNounPool_budget_termination [of "\<lambda>k. NetworkFailure" 3] f by simp
  show ?thesis
    using run r2 f failed by simp
qed

section \<open>Remote notifications\<close>




lemma applyRemote_applied:
  "parseInt10 (snap_key snap) = Some b \<Longrightarrow> truthy (snap_val snap) \<Longrightarrow>
   inputAt st lineIdx b = Some e \<Longrightarrow> activeElement st \<noteq> Some e \<Longrightarrow>
   elt_value (applyRemote lineIdx snap st) e
     = domString (orEmpty (getProp (snap_val snap) ''value''))"
  by (simp add: applyRemote_def Let_def)

lemma applyRemote_ignored:
  "parseInt10 (snap_key snap) = None \<or> \<not> truthy (snap_val snap)
   \<or> (\<exists>b. parseInt10 (snap_key snap) = Some b \<and> inputAt st lineIdx b = None)
   \<Longrightarrow> applyRemote lineIdx snap st = st"
  by (auto simp: applyRemote_def Let_def split: option.splits)

lemma domString_falsy: "\<not> truthy v \<Longrightarrow> domString (orEmpty v) = []"
  by (simp add: orEmpty_def domString_def stripNewlines_def)




lemma parseInt10_examples:
  "parseInt10 ''1'' = Some 1"
  "parseInt10 ''2'' = Some 2"
  "parseInt10 ''3'' = Some 3"
  "parseInt10 ''two'' = None"
  by code_simp+



text \<open>
  C10. A notification whose key does not parse as a number, or whose payload is missing,
  null or otherwise falsy, or whose indices name no bound input, leaves the page as it
  was. When the payload of a notification for a bound input without the focus has a
  missing or falsy \<open>value\<close>, the input is set to the empty string.
\<close>

theorem applyRemote_ignores_malformed:
  "(parseInt10 (snap_key snap) = None \<longrightarrow> applyRemote lineIdx snap st = st)
   \<and> (\<not> truthy (snap_val snap) \<longrightarrow> applyRemote lineIdx snap st = st)
   \<and> (parseInt10 (snap_key snap) = Some k \<and> inputAt st lineIdx k = None
        \<longrightarrow> applyRemote lineIdx snap st = st)
   \<and> (parseInt10 (snap_key snap) = Some k \<and> truthy (snap_val snap)
       \<and> inputAt st lineIdx k = Some e \<and> activeElement st \<noteq> Some e
       \<and> \<not> truthy (getProp (snap_val snap) ''value'')
        \<longrightarrow> elt_value (applyRemote lineIdx snap st) e = [])"
  using applyRemote_ignored [of snap st lineIdx]
    applyRemote_applied [of snap k st lineIdx e]
  by (auto simp: domString_falsy)

theorem applyRemote_ignores_malformed_witness:
  "parseInt10 ''two'' = None
   \<and> applyRemote 1 \<lparr>snap_key = ''two'', snap_val = JObj [(''value'', JStr ''x'')]\<rparr> examplePage
       = examplePage
   \<and> \<not> truthy JNull
   \<and> applyRemote 1 \<lparr>snap_key = ''2'', snap_val = JNull\<rparr> examplePage = examplePage
   \<and> parseInt10 ''3'' = Some 3 \<and> inputAt examplePage 1 3 = None
   \<and> applyRemote 1 \<lparr>snap_key = ''3'', snap_val = JObj [(''value'', JStr ''x'')]\<rparr> examplePage
       = examplePage
   \<and> \<not> truthy (getProp (JObj [(''editedBy'', JStr ''k'')]) ''value'')
   \<and> elt_value examplePage 7 = ''seven''
   \<and> elt_value (applyRemote 2
         \<lparr>snap_key = ''1'', snap_val = JObj [(''editedBy'', JStr ''k'')]\<rparr> examplePage) 7 = []"
proof -
  let ?bad = "\<lparr>snap_key = ''two'', snap_val = JObj [(''value'', JStr ''x'')]\<rparr>"
  let ?null = "\<lparr>snap_key = ''2'', snap_val = JNull\<rparr>"
  let ?far = "\<lparr>snap_key = ''3'', snap_val = JObj [(''value'', JStr ''x'')]\<rparr>"
  let ?novalue = "\<lparr>snap_key = ''1'', snap_val = JObj [(''editedBy'', JStr ''k'')]\<rparr>"
  note Ta = applyRemote_ignores_malformed [of ?bad 1 examplePage 0 0]
  note Tb = applyRemote_ignores_malformed [of ?null 1 examplePage 0 0]
  note Tc = applyRemote_ignores_malformed [of ?far 1 examplePage 3 0]
  note Td = applyRemote_ignores_malformed [of ?novalue 2 examplePage 1 7]
  have ka: "parseInt10 (snap_key ?bad) = None" and kc: "parseInt10 (snap_key ?far) = Some 3"
    and kd: "parseInt10 (snap_key ?novalue) = Some 1"
    and p2: "parseInt10 ''two'' = None" and p3: "parseInt10 ''3'' = Some 3"
    by (simp_all add: parseInt10_examples)
  have nb: "\<not> truthy (snap_val ?null)" and td: "truthy (snap_val ?novalue)"
    and nv: "\<not> truthy (getProp (snap_val ?novalue) ''value'')"
    and nv': "\<not> truthy (getProp (JObj [(''editedBy'', JStr ''k'')]) ''value'')"
    by simp_all
  have at3: "inputAt examplePage 1 3 = None" and at7: "inputAt examplePage 2 1 = Some 7"
    and nact: "activeElement examplePage \<noteq> Some 7" and v7: "elt_value examplePage 7 = ''seven''"
    by (simp_all add: examplePage_def inputAt_def LINES_def BLANKS_PER_LINE_def)
  have a: "applyRemote 1 ?bad examplePage = examplePage"
    using Ta ka by blast
  have b: "applyRemote 1 ?null examplePage = examplePage"
    using Tb nb by blast
  have c: "applyRemote 1 ?far examplePage = examplePage"
    using Tc kc at3 by blast
  have d: "elt_value (applyRemote 2 ?novalue examplePage) 7 = []"
    using Td kd td at7 nact nv by blast
  show ?thesis
    using a b c d p2 p3 at3 nv' v7 by simp
qed

section \<open>Reset: the local clear\<close>

lemma clearBlank_inputs: "inputs (clearBlank i b st) = inputs st"
  by (simp add: clearBlank_def split: option.splits)

lemma clearBlank_value:
  "elt_value (clearBlank i b st) e = (if inputs st i b = Some e then [] else elt_value st e)"
  by (simp add: clearBlank_def split: option.splits)

lemma clearRow_inputs: "inputs (fold (clearBlank i) bs st) = inputs st"
  by (induction bs arbitrary: st) (simp_all add: clearBlank_inputs)

lemma clearRow_value:
  "elt_value (fold (clearBlank i) bs st) e
     = (if \<exists>b\<in>set bs. inputs st i b = Some e then [] else elt_value st e)"
  by (induction bs arbitrary: st) (auto simp: clearBlank_inputs clearBlank_value)

lemma clearRows_inputs:
  "inputs (fold (\<lambda>i. fold (clearBlank i) bs) is st) = inputs st"
  by (induction "is" arbitrary: st) (simp_all add: clearRow_inputs)

lemma clearRows_value:
  "elt_value (fold (\<lambda>i. fold (clearBlank i) bs) is st) e
     = (if \<exists>i\<in>set is. \<exists>b\<in>set bs. inputs st i b = Some e then [] else elt_value st e)"
  by (induction "is" arbitrary: st) (auto simp: clearRow_inputs clearRow_value clearRows_inputs)

lemma clearLocal_inputs: "inputs (clearLocal st) = inputs st"
  by (simp add: clearLocal_def clearRows_inputs)

text \<open>The local clear empties exactly the elements bound in the grid.\<close>

lemma clearLocal_value:
  "elt_value (clearLocal st) e
     = (if \<exists>i<LINES. \<exists>b<BLANKS_PER_LINE. inputs st i b = Some e then [] else elt_value st e)"
  by (auto simp: clearLocal_def clearRows_value)

lemma setStatus_local:
  "inputs (setStatus m st) = inputs st"
  "elt_value (setStatus m st) = elt_value st"
  "db (setStatus m st) = db st"
  by (simp_all add: setStatus_def split: option.splits)

lemma setStatus_status: "status st \<noteq> None \<Longrightarrow> status (setStatus m st) = Some m"
  by (auto simp: setStatus_def)

lemma onReset_inputs: "inputs (onReset c r now st) = inputs st"
  by (simp add: onReset_def Let_def setStatus_local clearLocal_inputs
      split: option.splits outcome.splits)

lemma onReset_value: "elt_value (onReset True r now st) = elt_value (clearLocal st)"
  by (simp add: onReset_def Let_def setStatus_local split: option.splits outcome.splits)

lemma clearLocal_others: "db (clearLocal st) = db st" "status (clearLocal st) = status st"
proof -
  have row: "db (fold (clearBlank i) bs s) = db s \<and> status (fold (clearBlank i) bs s) = status s"
    for i bs s
    by (induction bs arbitrary: s) (simp_all add: clearBlank_def split: option.splits)
  have rows: "db (fold (\<lambda>i. fold (clearBlank i) bs) is s) = db s
      \<and> status (fold (\<lambda>i. fold (clearBlank i) bs) is s) = status s" for bs "is" s
    by (induction "is" arbitrary: s) (simp_all add: row)
  show "db (clearLocal st) = db st" "status (clearLocal st) = status st"
    by (simp_all add: clearLocal_def rows)
qed

lemma onReset_rejected_status:
  "status st \<noteq> None \<Longrightarrow> db st \<noteq> None \<Longrightarrow>
   status (onReset True Rejected now st) = Some ''Reset failed. Check console.''"
  by (auto simp: onReset_def Let_def clearLocal_others setStatus_status)

text \<open>
  C4. After a confirmed reset, every field of the grid reads as the empty string, and
  every element bound in the grid holds the empty string, whether the batched update
  was accepted or rejected: the values on the page are the same in both cases, those of
  the local clear. A rejected update is reported in the status and nothing is restored.
\<close>

theorem onReset_clears_locally:
  "(\<forall>i<LINES. \<forall>b<BLANKS_PER_LINE.
       valueAt (onReset True result now st) i b = []
       \<and> (\<forall>e. inputs st i b = Some e \<longrightarrow> elt_value (onReset True result now st) e = []))
   \<and> inputs (onReset True result now st) = inputs st
   \<and> elt_value (onReset True Rejected now st) = elt_value (onReset True Resolved now st)
   \<and> elt_value (onReset True Rejected now st) = elt_value (clearLocal st)
   \<and> (status st \<noteq> None \<and> db st \<noteq> None
        \<longrightarrow> status (onReset True Rejected now st) = Some ''Reset failed. Check console.'')"
proof (intro conjI allI impI)
  fix i b assume "i < LINES" "b < BLANKS_PER_LINE"
  then show "valueAt (onReset True result now st) i b = []"
    by (auto simp: valueAt_def onReset_inputs onReset_value clearLocal_value
        split: option.splits)
  fix e assume "inputs st i b = Some e"
  then show "elt_value (onReset True result now st) e = []"
    using \<open>i < LINES\<close> \<open>b < BLANKS_PER_LINE\<close>
    by (auto simp: onReset_value clearLocal_value)
next
  show "inputs (onReset True result now st) = inputs st"
    by (rule onReset_inputs)
  show "elt_value (onReset True Rejected now st) = elt_value (onReset True Resolved now st)"
    by (simp add: onReset_value)
  show "elt_value (onReset True Rejected now st) = elt_value (clearLocal st)"
    by (rule onReset_value)
next
  assume "status st \<noteq> None \<and> db st \<noteq> None"
  then show "status (onReset True Rejected now st) = Some ''Reset failed. Check console.''"
    by (simp add: onReset_rejected_status)
qed

theorem onReset_clears_locally_witness:
  "(2::nat) < LINES \<and> (1::nat) < BLANKS_PER_LINE
   \<and> inputs examplePage 2 1 = Some 7
   \<and> elt_value examplePage 7 = ''seven''
   \<and> valueAt (onReset True Rejected 1000 examplePage) 2 1 = []
   \<and> elt_value (onReset True Rejected 1000 examplePage) 7 = []
   \<and> status examplePage \<noteq> None \<and> db examplePage \<noteq> None
   \<and> status (onReset True Rejected 1000 examplePage) = Some ''Reset failed. Check console.''"
proof -
  note T = onReset_clears_locally [of Rejected 1000 examplePage]
  have l: "(2::nat) < LINES" and m: "(1::nat) < BLANKS_PER_LINE"
    by (simp_all add: LINES_def BLANKS_PER_LINE_def)
  have i7: "inputs examplePage 2 1 = Some 7" and v7: "elt_value examplePage 7 = ''seven''"
    and sd: "status examplePage \<noteq> None \<and> db examplePage \<noteq> None"
    by (simp_all add: examplePage_def LINES_def BLANKS_PER_LINE_def)
  have a: "valueAt (onReset True Rejected 1000 examplePage) 2 1 = []"
    using T l m by blast
  have b: "elt_value (onReset True Rejected 1000 examplePage) 7 = []"
    using T l m i7 by blast
  have c: "status (onReset True Rejected 1000 examplePage) = Some ''Reset failed. Check console.''"
    using T sd by blast
  show ?thesis
    using a b c l m i7 v7 sd by simp
qed

section \<open>White space normalisation\<close>

lemma space_ws: "isWhiteSpace CHR '' ''"
  by (simp add: isWhiteSpace_def)

lemma splitWs_ws_end: "isWhiteSpace c \<Longrightarrow> splitWs [c] = [[], []]"
  by (simp add: splitWs.simps(2))

lemma splitWs_ws_ws:
  "isWhiteSpace c \<Longrightarrow> isWhiteSpace d \<Longrightarrow> splitWs (c # d # ds) = splitWs (d # ds)"
  by (subst splitWs.simps(2)) simp

lemma splitWs_ws_word:
  "isWhiteSpace c \<Longrightarrow> \<not> isWhiteSpace d \<Longrightarrow> splitWs (c # d # ds) = [] # splitWs (d # ds)"
  by (subst splitWs.simps(2)) simp

lemma splitWs_nonempty: "splitWs s \<noteq> []"
proof (induction s)
  case Nil
  show ?case by simp
next
  case (Cons c cs)
  show ?case
  proof (cases "isWhiteSpace c")
    case False
    then show ?thesis by (subst splitWs.simps(2)) (simp split: list.split)
  next
    case True
    show ?thesis
    proof (cases cs)
      case Nil
      then show ?thesis using True by (simp add: splitWs_ws_end)
    next
      case (Cons d ds)
      then show ?thesis using True Cons.IH
        by (cases "isWhiteSpace d") (simp_all add: splitWs_ws_ws splitWs_ws_word)
    qed
  qed
qed

lemma splitWs_word:
  "\<not> isWhiteSpace c \<Longrightarrow> splitWs (c # cs) = (c # hd (splitWs cs)) # tl (splitWs cs)"
  using splitWs_nonempty [of cs] by (subst splitWs.simps(2)) (simp split: list.split)

lemma collapseWs_ws_end: "isWhiteSpace c \<Longrightarrow> collapseWs [c] = '' ''"
  by (simp add: collapseWs.simps(2))

lemma collapseWs_ws_ws:
  "isWhiteSpace c \<Longrightarrow> isWhiteSpace d \<Longrightarrow> collapseWs (c # d # ds) = collapseWs (d # ds)"
  by (subst collapseWs.simps(2)) simp

lemma collapseWs_ws_word:
  "isWhiteSpace c \<Longrightarrow> \<not> isWhiteSpace d \<Longrightarrow>
   collapseWs (c # d # ds) = CHR '' '' # collapseWs (d # ds)"
  by (subst collapseWs.simps(2)) simp

lemma collapseWs_word: "\<not> isWhiteSpace c \<Longrightarrow> collapseWs (c # cs) = c # collapseWs cs"
  by (subst collapseWs.simps(2)) simp

lemma splitWs_wsfree: "w \<in> set (splitWs s) \<Longrightarrow> c \<in> set w \<Longrightarrow> \<not> isWhiteSpace c"
proof (induction s arbitrary: w)
  case Nil
  then show ?case by simp
next
  case (Cons a s)
  show ?case
  proof (cases "isWhiteSpace a")
    case True
    have "set (splitWs (a # s)) \<subseteq> insert [] (set (splitWs s))"
    proof (cases s)
      case Nil
      then show ?thesis using True by (simp add: splitWs_ws_end)
    next
      case (Cons d ds)
      then show ?thesis using True
        by (cases "isWhiteSpace d") (auto simp: splitWs_ws_ws splitWs_ws_word)
    qed
    then have "w = [] \<or> w \<in> set (splitWs s)"
      using Cons.prems(1) by blast
    then show ?thesis using Cons.IH Cons.prems(2) by auto
  next
    case False
    have "w = a # hd (splitWs s) \<or> w \<in> set (tl (splitWs s))"
      using Cons.prems(1) False by (simp add: splitWs_word)
    moreover have "hd (splitWs s) \<in> set (splitWs s)"
      using splitWs_nonempty [of s] by simp
    moreover have "set (tl (splitWs s)) \<subseteq> set (splitWs s)"
      using splitWs_nonempty [of s] by (cases "splitWs s") auto
    ultimately show ?thesis using False Cons.IH Cons.prems(2) by auto
  qed
qed

lemma trimEnd_Cons:
  "rev (dropWhile isWhiteSpace (rev (x # xs)))
     = (if \<forall>c\<in>set (x # xs). isWhiteSpace c then []
        else x # rev (dropWhile isWhiteSpace (rev xs)))"
  by (auto simp: dropWhile_append)

lemma join_Cons: "join sep (w # ws) = (if ws = [] then w else w @ sep @ join sep ws)"
  by (cases ws) simp_all

lemma trimEnd_collapse:
  "rev (dropWhile isWhiteSpace (rev (collapseWs cs)))
     = join '' '' (hd (splitWs cs) # filter (\<lambda>w. w \<noteq> []) (tl (splitWs cs)))"
proof (induction cs)
  case Nil
  show ?case by simp
next
  case (Cons c cs)
  show ?case
  proof (cases "isWhiteSpace c")
    case False
    then show ?thesis using Cons.IH
      by (simp add: collapseWs_word splitWs_word trimEnd_Cons join_Cons del: rev.simps)
  next
    case True
    show ?thesis
    proof (cases cs)
      case Nil
      then show ?thesis using True by (simp add: space_ws collapseWs_ws_end splitWs_ws_end)
    next
      case (Cons d ds)
      show ?thesis
      proof (cases "isWhiteSpace d")
        case True
        then show ?thesis using \<open>isWhiteSpace c\<close> Cons Cons.IH
          by (simp add: collapseWs_ws_ws splitWs_ws_ws)
      next
        case False
        have "collapseWs (c # cs) = CHR '' '' # d # collapseWs ds"
          using True False Cons by (simp add: collapseWs_ws_word collapseWs_word)
        moreover have "collapseWs cs = d # collapseWs ds"
          using False Cons by (simp add: collapseWs_word)
        moreover have "splitWs (c # cs) = [] # splitWs cs"
          using True False Cons by (simp add: splitWs_ws_word)
        moreover have "splitWs cs = (d # hd (splitWs ds)) # tl (splitWs ds)"
          using False Cons by (simp add: splitWs_word)
        ultimately show ?thesis using Cons.IH False
          by (simp add: trimEnd_Cons join_Cons del: rev.simps)
      qed
    qed
  qed
qed

lemma collapse_dropWhile:
  "dropWhile isWhiteSpace (collapseWs s) = collapseWs (dropWhile isWhiteSpace s)"
proof (induction s)
  case Nil
  show ?case by simp
next
  case (Cons c cs)
  show ?case
  proof (cases "isWhiteSpace c")
    case False
    then show ?thesis by (simp add: collapseWs_word)
  next
    case True
    show ?thesis
    proof (cases cs)
      case Nil
      then show ?thesis using True by (simp add: collapseWs_ws_end space_ws)
    next
      case (Cons d ds)
      then show ?thesis using True Cons.IH
        by (cases "isWhiteSpace d")
          (simp_all add: collapseWs_ws_ws collapseWs_ws_word collapseWs_word space_ws)
    qed
  qed
qed

lemma wordsOf_ws: "isWhiteSpace c \<Longrightarrow> wordsOf (c # cs) = wordsOf cs"
proof (cases cs)
  case Nil
  assume "isWhiteSpace c"
  then show ?thesis using Nil by (simp add: wordsOf_def splitWs_ws_end)
next
  case (Cons d ds)
  assume "isWhiteSpace c"
  then show ?thesis using Cons
    by (cases "isWhiteSpace d") (simp_all add: wordsOf_def splitWs_ws_ws splitWs_ws_word)
qed

lemma wordsOf_dropWhile: "wordsOf (dropWhile isWhiteSpace s) = wordsOf s"
  by (induction s) (simp_all add: wordsOf_ws)

lemma normalize_words: "trim (collapseWs s) = join '' '' (wordsOf s)"
proof -
  let ?s = "dropWhile isWhiteSpace s"
  have a: "trim (collapseWs s)
      = join '' '' (hd (splitWs ?s) # filter (\<lambda>w. w \<noteq> []) (tl (splitWs ?s)))"
    by (simp add: trim_def collapse_dropWhile trimEnd_collapse)
  have b: "join '' '' (hd (splitWs ?s) # filter (\<lambda>w. w \<noteq> []) (tl (splitWs ?s)))
      = join '' '' (wordsOf ?s)"
  proof (cases ?s)
    case Nil
    show ?thesis unfolding Nil by (simp add: wordsOf_def)
  next
    case (Cons d ds)
    then have "\<not> isWhiteSpace d"
      using hd_dropWhile [of isWhiteSpace s] by auto
    then show ?thesis unfolding Cons by (simp add: wordsOf_def splitWs_word)
  qed
  show ?thesis using a b by (simp add: wordsOf_dropWhile)
qed

lemma wordsOf_words: "w \<in> set (wordsOf s) \<Longrightarrow> w \<noteq> [] \<and> (\<forall>c\<in>set w. \<not> isWhiteSpace c)"
  using splitWs_wsfree [of w s] by (auto simp: wordsOf_def)

lemma join_chars:
  "c \<in> set (join '' '' ws) \<Longrightarrow> c = CHR '' '' \<or> (\<exists>w\<in>set ws. c \<in> set w)"
  by (induction "'' ''" ws rule: join.induct) auto

lemma hasRun_word: "\<forall>c\<in>set xs. \<not> isWhiteSpace c \<Longrightarrow> hasRun (xs @ zs) = hasRun zs"
proof (induction xs)
  case Nil
  show ?case by simp
next
  case (Cons x xs)
  then show ?case by (cases "xs @ zs") auto
qed

lemma hasRun_join:
  "\<forall>w\<in>set ws. w \<noteq> [] \<and> (\<forall>c\<in>set w. \<not> isWhiteSpace c) \<Longrightarrow> \<not> hasRun (join '' '' ws)"
proof (induction "'' ''" ws rule: join.induct)
  case 1
  show ?case by simp
next
  case (2 p)
  then show ?case using hasRun_word [of p "[]"] by simp
next
  case (3 p q ps)
  obtain y ys where q: "q = y # ys" and y: "\<not> isWhiteSpace y"
    using "3.prems" by (cases q) auto
  have "join '' '' (q # ps) = y # tl (join '' '' (q # ps))"
    using q by (cases ps) simp_all
  then obtain rest where rest: "join '' '' (q # ps) = y # rest"
    by blast
  have "hasRun (join '' '' (p # q # ps)) = hasRun (CHR '' '' # join '' '' (q # ps))"
    using "3.prems" hasRun_word [of p "CHR '' '' # join '' '' (q # ps)"] by simp
  also have "\<dots> = hasRun (join '' '' (q # ps))"
    using rest y by simp
  finally show ?case using "3.hyps" "3.prems" by simp
qed

lemma trim_last: "trim s \<noteq> [] \<Longrightarrow> \<not> isWhiteSpace (last (trim s))"
  using hd_dropWhile [of isWhiteSpace "rev (dropWhile isWhiteSpace s)"]
  by (simp add: trim_def last_rev)

lemma trim_hd: "trim s \<noteq> [] \<Longrightarrow> \<not> isWhiteSpace (hd (trim s))"
proof (cases "dropWhile isWhiteSpace s")
  case Nil
  assume "trim s \<noteq> []"
  then show ?thesis using Nil by (simp add: trim_def)
next
  case (Cons x xs)
  assume ne: "trim s \<noteq> []"
  have x: "\<not> isWhiteSpace x"
    using hd_dropWhile [of isWhiteSpace s] Cons by simp
  have "trim s = rev (dropWhile isWhiteSpace (rev (x # xs)))"
    by (simp add: trim_def Cons)
  then have "hd (trim s) = x"
    using x by (simp only: trimEnd_Cons) auto
  then show ?thesis using x by simp
qed

text \<open>
  The normal form: the words of the string with one space between them; no white space
  but the space, no two of them side by side, none at either end.
\<close>

lemma normalize_form:
  "\<not> hasRun (trim (collapseWs s))
   \<and> (\<forall>c\<in>set (trim (collapseWs s)). isWhiteSpace c \<longrightarrow> c = CHR '' '')
   \<and> (trim (collapseWs s) \<noteq> []
        \<longrightarrow> \<not> isWhiteSpace (hd (trim (collapseWs s)))
            \<and> \<not> isWhiteSpace (last (trim (collapseWs s))))"
proof (intro conjI ballI impI)
  show "\<not> hasRun (trim (collapseWs s))"
    using wordsOf_words [of _ s] by (simp add: normalize_words hasRun_join)
next
  fix c assume "c \<in> set (trim (collapseWs s))" and w: "isWhiteSpace c"
  then have "c = CHR '' '' \<or> (\<exists>w\<in>set (wordsOf s). c \<in> set w)"
    by (simp add: normalize_words join_chars)
  then show "c = CHR '' ''"
    using w wordsOf_words [of _ s] by blast
next
  assume "trim (collapseWs s) \<noteq> []"
  then show "\<not> isWhiteSpace (hd (trim (collapseWs s)))"
    by (rule trim_hd)
next
  assume "trim (collapseWs s) \<noteq> []"
  then show "\<not> isWhiteSpace (last (trim (collapseWs s)))"
    by (rule trim_last)
qed

section \<open>Compose: the normal form of a line\<close>

lemma composeLine_eq:
  "i < LINES \<Longrightarrow>
   composeLine st i =
     Inr (trim (collapseWs (join '' ''
       [''Line '' @ String_nat (i + 1) @ '': Before'', valueAt st i 0,
        ''then'', valueAt st i 1, ''and then'', valueAt st i 2, ''finally''])))"
  by (simp add: composeLine_def segments_def Let_def)

text \<open>
  C9. \<open>composeLine\<close> reads the page and changes nothing, and its result depends on the
  page only through the values of the fields of its line: two pages that agree on them
  compose the same line. For a line of the grid the result is the static segments
  interleaved with the field values, joined by spaces and normalised: the words of that
  string with one space between them. It has no white space other than the space, no two
  white space characters side by side, and none at its start or end.
\<close>

theorem composeLine_normalized:
  "((\<forall>b<BLANKS_PER_LINE. valueAt st' i b = valueAt st i b)
      \<longrightarrow> composeLine st' i = composeLine st i)
   \<and> (i < LINES \<longrightarrow>
        composeLine st i =
          Inr (join '' '' (wordsOf (join '' ''
            [''Line '' @ String_nat (i + 1) @ '': Before'', valueAt st i 0,
             ''then'', valueAt st i 1, ''and then'', valueAt st i 2, ''finally'']))))
   \<and> (\<forall>r. composeLine st i = Inr r \<longrightarrow>
         \<not> hasRun r
         \<and> (\<forall>c\<in>set r. isWhiteSpace c \<longrightarrow> c = CHR '' '')
         \<and> (r \<noteq> [] \<longrightarrow> \<not> isWhiteSpace (hd r) \<and> \<not> isWhiteSpace (last r)))"
proof (intro conjI allI impI)
  assume "\<forall>b<BLANKS_PER_LINE. valueAt st' i b = valueAt st i b"
  then have "valueAt st' i 0 = valueAt st i 0" "valueAt st' i 1 = valueAt st i 1"
    "valueAt st' i 2 = valueAt st i 2"
    by (simp_all add: BLANKS_PER_LINE_def)
  then show "composeLine st' i = composeLine st i"
    unfolding composeLine_def by (simp only:)
next
  assume "i < LINES"
  then show "composeLine st i =
      Inr (join '' '' (wordsOf (join '' ''
        [''Line '' @ String_nat (i + 1) @ '': Before'', valueAt st i 0,
         ''then'', valueAt st i 1, ''and then'', valueAt st i 2, ''finally''])))"
    by (simp only: composeLine_eq normalize_words)
next
  fix r assume r: "composeLine st i = Inr r"
  then obtain s where s: "r = trim (collapseWs s)"
    by (auto simp: composeLine_def Let_def split: option.splits)
  show "\<not> hasRun r"
    unfolding s using normalize_form [of s] by blast
  show "\<forall>c\<in>set r. isWhiteSpace c \<longrightarrow> c = CHR '' ''"
    unfolding s using normalize_form [of s] by blast
  assume "r \<noteq> []"
  then show "\<not> isWhiteSpace (hd r)" "\<not> isWhiteSpace (last r)"
    unfolding s using normalize_form [of s] by blast+
qed

theorem composeLine_normalized_witness:
  "(1::nat) < LINES
   \<and> composeLine
        (examplePage\<lparr>elt_value := (\<lambda>e. if e = 3 then ''  a   b '' else if e = 4 then [] else ''x'')\<rparr>)
        1
     = Inr ''Line 2: Before a b then and then x finally''
   \<and> \<not> hasRun ''Line 2: Before a b then and then x finally''
   \<and> composeLine
        (examplePage\<lparr>elt_value := (\<lambda>e. if e = 3 then ''  a   b '' else if e = 4 then [] else ''x''),
                      db := None\<rparr>)
        1
     = Inr ''Line 2: Before a b then and then x finally''"
proof -
  let ?P = "examplePage\<lparr>elt_value :=
      (\<lambda>e. if e = 3 then ''  a   b '' else if e = 4 then [] else ''x'')\<rparr>"
  let ?r = "''Line 2: Before a b then and then x finally''"
  note T = composeLine_normalized [of "?P\<lparr>db := None\<rparr>" 1 ?P]
  have l: "(1::nat) < LINES"
    by (simp add: LINES_def)
  have v: "\<forall>b<BLANKS_PER_LINE. valueAt (?P\<lparr>db := None\<rparr>) 1 b = valueAt ?P 1 b"
    by (simp add: valueAt_def split: option.splits)
  have v0: "valueAt ?P 1 0 = ''  a   b ''" and v1: "valueAt ?P 1 1 = []"
    and v2: "valueAt ?P 1 2 = ''x''"
    by (simp_all add: valueAt_def examplePage_def LINES_def BLANKS_PER_LINE_def)
  have s2: "String_nat (1 + 1) = ''2''"
    by code_simp
  have e: "join '' '' (wordsOf (join '' ''
      [''Line '' @ String_nat (1 + 1) @ '': Before'', valueAt ?P 1 0,
       ''then'', valueAt ?P 1 1, ''and then'', valueAt ?P 1 2, ''finally''])) = ?r"
    unfolding v0 v1 v2 s2 by code_simp
  have c: "composeLine ?P 1 = Inr ?r"
    using T [THEN conjunct2, THEN conjunct1, THEN mp, OF l] unfolding e .
  have d: "composeLine (?P\<lparr>db := None\<rparr>) 1 = composeLine ?P 1"
    by (rule T [THEN conjunct1, THEN mp, OF v])
  have h: "\<not> hasRun ?r"
    using T [THEN conjunct2, THEN conjunct2, THEN spec, THEN mp, OF c] by (rule conjunct1)
  have d': "composeLine (?P\<lparr>db := None\<rparr>) 1 = Inr ?r"
    using d c by (rule trans)
  show ?thesis
    by (intro conjI) (rule l, rule c, rule h, rule d')
qed

section \<open>The download name: shape and characters\<close>

lemma digit_isDigit: "d < 10 \<Longrightarrow> isDigit (digit d)"
  by (simp add: isDigit_def digit_def)

lemma String_nat_digits: "c \<in> set (String_nat n) \<Longrightarrow> isDigit c"
proof (induction n rule: String_nat.induct)
  case (1 n)
  show ?case
  proof (cases "n < 10")
    case True
    then show ?thesis using "1.prems" digit_isDigit [of n]
      by (subst (asm) String_nat.simps) simp
  next
    case False
    have "isDigit (digit (n mod 10))" by (rule digit_isDigit) simp
    then show ?thesis using False "1.IH" "1.prems"
      by (subst (asm) String_nat.simps) auto
  qed
qed

lemma colon_not_digit: "\<not> isDigit CHR '':''"
  by (simp add: isDigit_def)

lemma String_int_colon: "CHR '':'' \<notin> set (String_int i)"
  using String_nat_digits colon_not_digit by (auto simp: String_int_def)

lemma pad_colon: "CHR '':'' \<notin> set (pad n)"
  using String_nat_digits colon_not_digit by (auto simp: pad_def padStart_def)

lemma downloadName_colon: "CHR '':'' \<notin> set (downloadName d)"
  by (simp add: downloadName_def stamp_def String_int_colon pad_colon)

lemma String_nat_1: "n < 10 \<Longrightarrow> String_nat n = [digit n]"
  by (subst String_nat.simps) simp

lemma String_nat_2: "10 \<le> n \<Longrightarrow> n < 100 \<Longrightarrow> String_nat n = twoDigits n"
  by (subst String_nat.simps) (simp add: String_nat_1 twoDigits_def)

lemma String_nat_3: "100 \<le> n \<Longrightarrow> n < 1000 \<Longrightarrow> String_nat n = [digit (n div 100), digit (n div 10 mod 10), digit (n mod 10)]"
  by (subst String_nat.simps) (simp add: String_nat_2 twoDigits_def div_mult2_eq [symmetric])

lemma String_nat_4: "1000 \<le> n \<Longrightarrow> n < 10000 \<Longrightarrow> String_nat n = fourDigits n"
  by (subst String_nat.simps) (simp add: String_nat_3 fourDigits_def div_mult2_eq [symmetric])

lemma digit_0: "digit 0 = CHR ''0''"
  by code_simp

lemma pad_two: "n < 100 \<Longrightarrow> pad n = twoDigits n"
  by (cases "n < 10")
    (simp_all add: pad_def padStart_def String_nat_1 String_nat_2 twoDigits_def digit_0 [symmetric])


lemma downloadName_shape:
  assumes "validDate d"
  shows "downloadName d = ''fill-in-blanks-'' @ fourDigits (nat (getFullYear d))
      @ twoDigits (getMonth d + 1) @ twoDigits (getDate d) @ ''-''
      @ twoDigits (getHours d) @ twoDigits (getMinutes d) @ twoDigits (getSeconds d) @ ''.txt''"
proof -
  have y: "String_int (getFullYear d) = fourDigits (nat (getFullYear d))"
  proof -
    have "1000 \<le> nat (getFullYear d)" "nat (getFullYear d) < 10000"
      using assms unfolding validDate_def by linarith+
    then have "String_nat (nat (getFullYear d)) = fourDigits (nat (getFullYear d))"
      by (rule String_nat_4)
    then show ?thesis using assms by (simp add: validDate_def String_int_def)
  qed
  show ?thesis
    using assms by (simp add: downloadName_def stamp_def y pad_two validDate_def)
qed

text \<open>
  C6. The download name is a function of the date it is made from. For every date, also
  one whose fields are out of range, it has no colon, and the characters of its stamp
  are decimal digits and the hyphen. For a date with a year of four digits and fields in
  range it has the shape \<open>fill-in-blanks-YYYYMMDD-HHMMSS.txt\<close>: the year in four digits,
  then month (counted from one), day, a hyphen, hours, minutes and seconds in two digits
  each, 34 characters in all.
\<close>

theorem downloadName_safe:
  "CHR '':'' \<notin> set (downloadName d)
   \<and> (\<forall>c\<in>set (stamp d). isDigit c \<or> c = CHR ''-'')
   \<and> (validDate d \<longrightarrow>
        downloadName d =
          ''fill-in-blanks-'' @ fourDigits (nat (getFullYear d))
          @ twoDigits (getMonth d + 1) @ twoDigits (getDate d) @ ''-''
          @ twoDigits (getHours d) @ twoDigits (getMinutes d) @ twoDigits (getSeconds d)
          @ ''.txt''
        \<and> length (downloadName d) = 34)"
proof (intro conjI ballI impI)
  show "CHR '':'' \<notin> set (downloadName d)"
    by (rule downloadName_colon)
next
  fix c assume c: "c \<in> set (stamp d)"
  have y: "c' \<in> set (String_int i) \<Longrightarrow> isDigit c' \<or> c' = CHR ''-''" for c' i
    using String_nat_digits by (auto simp: String_int_def split: if_splits)
  have z: "isDigit CHR ''0''"
    by (simp add: isDigit_def)
  have p: "c' \<in> set (pad n) \<Longrightarrow> isDigit c'" for c' n
    using String_nat_digits z by (auto simp: pad_def padStart_def split: if_splits)
  show "isDigit c \<or> c = CHR ''-''"
    using c y p unfolding stamp_def by auto
next
  assume v: "validDate d"
  then show shape: "downloadName d =
      ''fill-in-blanks-'' @ fourDigits (nat (getFullYear d))
      @ twoDigits (getMonth d + 1) @ twoDigits (getDate d) @ ''-''
      @ twoDigits (getHours d) @ twoDigits (getMinutes d) @ twoDigits (getSeconds d)
      @ ''.txt''"
    by (rule downloadName_shape)
  show "length (downloadName d) = 34"
    unfolding shape by (simp add: fourDigits_def twoDigits_def)
qed

theorem downloadName_safe_witness:
  "validDate \<lparr>getFullYear = 2026, getMonth = 10, getDate = 3,
              getHours = 9, getMinutes = 5, getSeconds = 7\<rparr>
   \<and> downloadName \<lparr>getFullYear = 2026, getMonth = 10, getDate = 3,
                   getHours = 9, getMinutes = 5, getSeconds = 7\<rparr>
     = ''fill-in-blanks-20261103-090507.txt''
   \<and> isDigit CHR ''2''
   \<and> CHR ''2'' \<in> set (stamp \<lparr>getFullYear = 2026, getMonth = 10, getDate = 3,
                              getHours = 9, getMinutes = 5, getSeconds = 7\<rparr>)"
proof -
  let ?d = "\<lparr>getFullYear = 2026, getMonth = 10, getDate = 3,
             getHours = 9, getMinutes = 5, getSeconds = 7\<rparr>"
  note T = downloadName_safe [of ?d]
  have v: "validDate ?d"
    by (simp add: validDate_def)
  have e: "''fill-in-blanks-'' @ fourDigits (nat (getFullYear ?d))
      @ twoDigits (getMonth ?d + 1) @ twoDigits (getDate ?d) @ ''-''
      @ twoDigits (getHours ?d) @ twoDigits (getMinutes ?d) @ twoDigits (getSeconds ?d)
      @ ''.txt'' = ''fill-in-blanks-20261103-090507.txt''"
    by code_simp
  have n: "downloadName ?d = ''fill-in-blanks-20261103-090507.txt''"
    using T v unfolding e by blast
  have m: "CHR ''2'' \<in> set (stamp ?d)"
    by code_simp
  have "isDigit CHR ''2'' \<or> CHR ''2'' = CHR ''-''"
    using T m by blast
  then have g: "isDigit CHR ''2''"
    by simp
  show ?thesis
    using v n m g by simp
qed

section \<open>Debounced edits: the timer\<close>




section \<open>Without a store\<close>

lemma writeBlank_absent: "db st = None \<Longrightarrow> writeBlank i b v now st = st"
  by (simp add: writeBlank_def)

lemma elapse_absent: "db st = None \<Longrightarrow> fst (elapse i b e now (st, t)) = st"
  by (simp add: elapse_def writeBlank_absent split: option.splits)

lemma typing_absent:
  "db (fst s) = None \<Longrightarrow> db (fst (fst (typing i b e edits now s))) = None"
proof (induction edits arbitrary: now s)
  case Nil
  then show ?case by simp
next
  case (Cons gv edits)
  obtain g v where gv: "gv = (g, v)" by (cases gv)
  obtain st t where s: "s = (st, t)" by (cases s)
  have "db (fst (onInput e v (now + g) (elapse i b e (now + g) s))) = None"
    using Cons.prems s elapse_absent [of st i b e "now + g" t]
    by (cases "elapse i b e (now + g) (st, t)") (simp add: onInput_def)
  then show ?case unfolding gv by (simp add: Cons.IH)
qed

lemma valueAt_db: "valueAt (st\<lparr>db := x\<rparr>) i b = valueAt st i b"
  by (simp add: valueAt_def split: option.splits)

lemma composeLine_db: "composeLine (st\<lparr>db := x\<rparr>) i = composeLine st i"
  unfolding composeLine_def by (simp only: valueAt_db)

lemma onReset_absent:
  "db st = None \<Longrightarrow> onReset True result now st = setStatus ''All blanks reset.'' (clearLocal st)"
  by (simp add: onReset_def Let_def clearLocal_others)

text \<open>
  C8. When no store is configured, writing a field and subscribing to a line return the
  page as it was, and a timer of a debounced edit that runs changes nothing on the page.
  The page keeps working on its own: a sequence of edits leaves the page without a store,
  a reset clears the fields locally and reports success, and a composed line is the same
  whether a store is configured or not.
\<close>

theorem remote_absent_noop:
  "db st = None \<longrightarrow>
     writeBlank lineIdx blankIdx v now st = st
     \<and> attachLineListener lineIdx st = st
     \<and> fst (elapse lineIdx blankIdx e now (st, t)) = st
     \<and> db (fst (fst (typing lineIdx blankIdx e edits now (st, t)))) = None
     \<and> onReset True result now st = setStatus ''All blanks reset.'' (clearLocal st)
     \<and> composeLine (st\<lparr>db := Some r\<rparr>) i = composeLine st i"
proof (intro impI conjI)
  assume a: "db st = None"
  show "writeBlank lineIdx blankIdx v now st = st"
    using a by (rule writeBlank_absent)
  show "attachLineListener lineIdx st = st"
    using a by (simp add: attachLineListener_def)
  show "fst (elapse lineIdx blankIdx e now (st, t)) = st"
    using a by (rule elapse_absent)
  show "db (fst (fst (typing lineIdx blankIdx e edits now (st, t)))) = None"
    using a by (simp add: typing_absent)
  show "onReset True result now st = setStatus ''All blanks reset.'' (clearLocal st)"
    using a by (rule onReset_absent)
  show "composeLine (st\<lparr>db := Some r\<rparr>) i = composeLine st i"
    by (rule composeLine_db)
qed

theorem remote_absent_noop_witness:
  "db (examplePage\<lparr>db := None\<rparr>) = None
   \<and> writeBlank 1 1 ''hey'' 1599 (examplePage\<lparr>db := None\<rparr>) = examplePage\<lparr>db := None\<rparr>
   \<and> attachLineListener 1 (examplePage\<lparr>db := None\<rparr>) = examplePage\<lparr>db := None\<rparr>
   \<and> fst (elapse 1 1 4 1599 (examplePage\<lparr>db := None\<rparr>, Some 1599))
       = examplePage\<lparr>db := None\<rparr>"
proof -
  let ?P = "examplePage\<lparr>db := None\<rparr>"
  have a: "db ?P = None"
    by simp
  note R = remote_absent_noop
    [of ?P 1 1 "''hey''" 1599 4 "Some 1599" "[]" Resolved
      "\<lparr>sets = [], listeners = [], updates = []\<rparr>" 1, THEN mp, OF a]
  show ?thesis
    by (intro conjI)
      (rule a, rule R [THEN conjunct1], rule R [THEN conjunct2, THEN conjunct1],
        rule R [THEN conjunct2, THEN conjunct2, THEN conjunct1])
qed

section \<open>Debounced edits: one write for a burst\<close>















text \<open>A sequence of edits is a sequence of events.\<close>

lemma session_typing:
  "session i b e (map (\<lambda>(g, v). (g, Edit v)) edits) now s = typing i b e edits now s"
proof (induction edits arbitrary: now s)
  case Nil
  show ?case by simp
next
  case (Cons gv edits)
  obtain g v where gv: "gv = (g, v)" by (cases gv)
  obtain st t where el: "elapse i b e (now + g) s = (st, t)"
    by (cases "elapse i b e (now + g) s")
  show ?case unfolding gv by (simp add: Cons.IH el handleEvent_def)
qed






section \<open>Dealing the suggestions: disjoint rows\<close>







































end
